theory Spec2Isabelle
  imports Complex_Main
begin

section \<open>Data model\<close>

text \<open>
  JavaScript numbers are modelled as real numbers (no rounding, no NaN); array indices and
  loop counters as natural numbers; \<open>AppState.currentStep\<close> as an integer, since
  the auto-play timer sets it to \<open>-1\<close>. Strings are byte lists; the two non-ASCII
  letters of a layer name are written as their UTF-8 bytes.

  A note object always carries \<open>pitch\<close>, \<open>duration\<close> and \<open>velocity\<close> (every
  object literal of \<open>DataGenerator\<close> that builds a note sets the three); \<open>time\<close> is
  missing from the notes built by \<open>applyGenericTransform\<close> for non-array data, and
  \<open>features\<close>, \<open>hidden\<close>, \<open>cell\<close>, \<open>attention\<close> are added by the layer
  transforms. A missing property is \<open>None\<close>.
\<close>

record Note =
  pitch :: real
  time :: "real option"
  duration :: real
  velocity :: real
  features :: "real list option"
  hidden :: "real option"
  cell :: "real option"
  attention :: "real option"

text \<open>The values that flow between layers: \<open>null\<close>, an array of notes, the object
  returned by \<open>applyLatentSampling\<close>, the object returned by \<open>applyTimeEmbedding\<close>.\<close>

datatype layer_data =
    Null
  | NoteArray "Note list"
  | LatentSample (mu: "real list") (sigma: "real list") (z: "real list")
  | TimeEmbedding (timestep: real) (embedding: "real list")

text \<open>The object returned by \<open>DataGenerator.processLayer\<close>; its \<open>type\<close> property is
  the field \<open>ltype\<close>.\<close>

record layer_output =
  layer :: string
  ltype :: string
  data :: layer_data
  activation :: "real list list"

datatype js_error = TypeError | RangeError

subsection \<open>AppState\<close>

text \<open>One entry of \<open>layers\<close> in an architecture preset. The display texts
  \<open>operation\<close>, \<open>formula\<close> and \<open>description\<close> are read by the renderers only and
  are left out.\<close>

record Layer =
  name :: string
  type :: string
  inputShape :: string
  outputShape :: string
  color :: nat
  params :: nat

record Arch =
  arch_name :: string
  layers :: "Layer list"

definition mk_layer :: "string \<Rightarrow> string \<Rightarrow> string \<Rightarrow> string \<Rightarrow> nat \<Rightarrow> nat \<Rightarrow> Layer" where
  "mk_layer n t i o' c p =
     \<lparr>name = n, type = t, inputShape = i, outputShape = o', color = c, params = p\<rparr>"

definition VAE_layers :: "Layer list" where
  "VAE_layers =
     [mk_layer ''Input Layer'' ''input'' ''[T, 88]'' ''[T, 88]'' 0x00d4ff 0,
      mk_layer ''Encoder Conv1'' ''conv'' ''[T, 88]'' ''[T, 256]'' 0x0099ff 67840,
      mk_layer ''Encoder Conv2'' ''conv'' ''[T, 256]'' ''[T, 512]'' 0x0066ff 393728,
      mk_layer (''Latent Space ('' @ [CHR 0xCE, CHR 0xBC] @ '', '' @ [CHR 0xCF, CHR 0x83] @ '')'') ''latent'' ''[T, 512]'' ''[128]'' 0xff00ff 131200,
      mk_layer ''Decoder Dense'' ''dense'' ''[128]'' ''[T, 512]'' 0xff6600 131584,
      mk_layer ''Decoder Conv1'' ''deconv'' ''[T, 512]'' ''[T, 256]'' 0xff9900 393472,
      mk_layer ''Output Layer'' ''output'' ''[T, 256]'' ''[T, 88]'' 0x00ff88 67672]"

definition LSTM_layers :: "Layer list" where
  "LSTM_layers =
     [mk_layer ''Input Sequence'' ''input'' ''[T, 88]'' ''[T, 88]'' 0x00d4ff 0,
      mk_layer ''Embedding Layer'' ''embedding'' ''[T, 88]'' ''[T, 256]'' 0x00aaff 22784,
      mk_layer ''LSTM Layer 1'' ''lstm'' ''[T, 256]'' ''[T, 256]'' 0x0066ff 525312,
      mk_layer ''LSTM Layer 2'' ''lstm'' ''[T, 256]'' ''[T, 256]'' 0x3366ff 525312,
      mk_layer ''Output Projection'' ''output'' ''[T, 256]'' ''[T, 88]'' 0x00ff88 22616]"

definition Transformer_layers :: "Layer list" where
  "Transformer_layers =
     [mk_layer ''Input Embedding'' ''input'' ''[T, 88]'' ''[T, 512]'' 0x00d4ff 45056,
      mk_layer ''Positional Encoding'' ''positional'' ''[T, 512]'' ''[T, 512]'' 0x0099ff 0,
      mk_layer ''Multi-Head Attention'' ''attention'' ''[T, 512]'' ''[T, 512]'' 0xff00ff 1049600,
      mk_layer ''Feed Forward Network'' ''ffn'' ''[T, 512]'' ''[T, 512]'' 0xff6600 2099200,
      mk_layer ''Output Projection'' ''output'' ''[T, 512]'' ''[T, 88]'' 0x00ff88 45144]"

definition Diffusion_layers :: "Layer list" where
  "Diffusion_layers =
     [mk_layer ''Noisy Input'' ''input'' ''[T, 88]'' ''[T, 88]'' 0xff0000 0,
      mk_layer ''Time Embedding'' ''time'' ''[1]'' ''[256]'' 0xff6600 0,
      mk_layer ''U-Net Downsampling'' ''down'' ''[T, 88]'' ''[T/2, 512]'' 0xff9900 451584,
      mk_layer ''Bottleneck'' ''bottleneck'' ''[T/2, 512]'' ''[T/4, 1024]'' 0xff00ff 2099200,
      mk_layer ''U-Net Upsampling'' ''up'' ''[T/4, 1024]'' ''[T/2, 512]'' 0x00d4ff 2098176,
      mk_layer ''Noise Prediction'' ''predict'' ''[T/2, 512]'' ''[T, 88]'' 0x0099ff 225280,
      mk_layer ''Denoised Output'' ''output'' ''[T, 88]'' ''[T, 88]'' 0x00ff88 0]"

definition architectures :: "(string \<times> Arch) list" where
  "architectures =
     [(''VAE'', \<lparr>arch_name = ''Variational Autoencoder'', layers = VAE_layers\<rparr>),
      (''LSTM'', \<lparr>arch_name = ''LSTM Recurrent Network'', layers = LSTM_layers\<rparr>),
      (''Transformer'', \<lparr>arch_name = ''Transformer Architecture'', layers = Transformer_layers\<rparr>),
      (''Diffusion'', \<lparr>arch_name = ''Diffusion Model'', layers = Diffusion_layers\<rparr>)]"

text \<open>The mutable fields of \<open>AppState\<close>. \<open>inputData\<close> is \<open>null\<close> (\<open>None\<close>) until
  \<open>generateInput\<close> stores a note array; \<open>architectures\<close> is never assigned and is the
  constant above.\<close>

record AppState =
  currentArchitecture :: string
  inputData :: "Note list option"
  inputNotes :: "Note list"
  layerOutputs :: "layer_output list"
  currentStep :: int
  totalSteps :: int
  isAnimating :: bool
  isAutoPlaying :: bool
  animationSpeed :: real
  temperature :: real
  latentDim :: int
  outputNotes :: "Note list"

text \<open>\<open>getCurrentArch\<close>: the property lookup \<open>architectures[currentArchitecture]\<close>,
  \<open>undefined\<close> (\<open>None\<close>) for a key the object does not have.\<close>

definition getCurrentArch :: "AppState \<Rightarrow> Arch option" where
  "getCurrentArch s = map_of architectures (currentArchitecture s)"

definition reset :: "AppState \<Rightarrow> AppState" where
  "reset s = s\<lparr>currentStep := 0, layerOutputs := [], outputNotes := [], isAnimating := False\<rparr>"

text \<open>Array indexing \<open>xs[i]\<close>: \<open>undefined\<close> (\<open>None\<close>) outside the array.\<close>

definition js_index :: "'a list \<Rightarrow> int \<Rightarrow> 'a option" where
  "js_index xs i = (if 0 \<le> i \<and> i < int (length xs) then Some (xs ! nat i) else None)"

subsection \<open>The random source\<close>

text \<open>
  \<open>Math.random()\<close> is an extra input: an infinite sequence of numbers and the position of
  the next one to hand out. Each call returns the number at the position and advances it.
  The sequence is the numbers handed to the functions modelled here; what the render loop
  of \<open>Engine3D\<close> draws between two tasks is not part of it.
\<close>

record rng =
  source :: "nat \<Rightarrow> real"
  pos :: nat

definition Math_random :: "rng \<Rightarrow> real \<times> rng" where
  "Math_random g = (source g (pos g), g\<lparr>pos := Suc (pos g)\<rparr>)"

text \<open>The contract of \<open>Math.random\<close>: every number is in \<open>[0, 1)\<close>.\<close>

definition rng_ok :: "rng \<Rightarrow> bool" where
  "rng_ok g \<longleftrightarrow> (\<forall>n. 0 \<le> source g n \<and> source g n < 1)"

section \<open>DataGenerator: input and output sequences\<close>

definition mk_note :: "real \<Rightarrow> real \<Rightarrow> real \<Rightarrow> real \<Rightarrow> Note" where
  "mk_note p t d v =
     \<lparr>pitch = p, time = Some t, duration = d, velocity = v,
      features = None, hidden = None, cell = None, attention = None\<rparr>"

text \<open>\<open>generateRandom\<close>: the \<open>for\<close> loop over \<open>i < 32\<close>; the pitch draws first, the
  velocity second.\<close>

function generateRandom_loop :: "nat \<Rightarrow> Note list \<Rightarrow> rng \<Rightarrow> Note list \<times> rng" where
  "generateRandom_loop i notes g =
     (if i < 32 then
        (let (r1, g1) = Math_random g;
             p = 60 + of_int \<lfloor>r1 * 25\<rfloor> - 12;
             (r2, g2) = Math_random g1
         in generateRandom_loop (i + 1)
              (notes @ [mk_note (max 36 (min 96 p)) (of_nat i * 0.25) 0.25 (r2 * 0.4 + 0.6)]) g2)
      else (notes, g))"
  by pat_completeness auto
termination
  by (relation "measure (\<lambda>(i, notes, g). 32 - i)") (auto simp: Math_random_def)

declare generateRandom_loop.simps [simp del]

definition generateRandom :: "rng \<Rightarrow> Note list \<times> rng" where
  "generateRandom g = generateRandom_loop 0 [] g"

text \<open>\<open>generateScale\<close>: two \<open>forEach\<close> loops with the element's index.\<close>

definition scale :: "real list" where
  "scale = [60, 62, 64, 65, 67, 69, 71, 72]"

fun generateScale_ascending :: "real list \<Rightarrow> nat \<Rightarrow> Note list \<Rightarrow> Note list" where
  "generateScale_ascending [] i notes = notes"
| "generateScale_ascending (p # ps) i notes =
     generateScale_ascending ps (i + 1) (notes @ [mk_note p (of_nat i * 0.25) 0.25 0.8])"

fun generateScale_descending :: "real list \<Rightarrow> nat \<Rightarrow> Note list \<Rightarrow> Note list" where
  "generateScale_descending [] i notes = notes"
| "generateScale_descending (p # ps) i notes =
     generateScale_descending ps (i + 1)
       (notes @ [mk_note p (of_nat (length scale + i) * 0.25) 0.25 0.8])"

definition generateScale :: "Note list" where
  "generateScale =
     generateScale_descending (rev scale) 0 (generateScale_ascending scale 0 [])"

text \<open>\<open>generateChords\<close>: the outer \<open>forEach\<close> has the chord's index, the inner one
  pushes one note per pitch.\<close>

definition chords :: "real list list" where
  "chords = [[60, 64, 67], [65, 69, 72], [67, 71, 74], [60, 64, 67]]"

fun generateChords_chord :: "real list \<Rightarrow> nat \<Rightarrow> Note list \<Rightarrow> Note list" where
  "generateChords_chord [] chordIdx notes = notes"
| "generateChords_chord (p # ps) chordIdx notes =
     generateChords_chord ps chordIdx (notes @ [mk_note p (of_nat chordIdx * 1.0) 1.0 0.75])"

fun generateChords_loop :: "real list list \<Rightarrow> nat \<Rightarrow> Note list \<Rightarrow> Note list" where
  "generateChords_loop [] chordIdx notes = notes"
| "generateChords_loop (c # cs) chordIdx notes =
     generateChords_loop cs (chordIdx + 1) (generateChords_chord c chordIdx notes)"

definition generateChords :: "Note list" where
  "generateChords = generateChords_loop chords 0 []"

text \<open>\<open>generateInput\<close>: the \<open>switch\<close> on the type string, \<open>default\<close> last.\<close>

definition generateInput :: "string \<Rightarrow> rng \<Rightarrow> Note list \<times> rng" where
  "generateInput ty g =
     (if ty = ''random'' then generateRandom g
      else if ty = ''scale'' then (generateScale, g)
      else if ty = ''chord'' then (generateChords, g)
      else generateRandom g)"

text \<open>\<open>generateOutput(latentData)\<close>: reads \<open>AppState.temperature\<close> and the random
  source; \<open>latentData\<close> is the function's parameter.\<close>

function generateOutput_loop :: "real \<Rightarrow> nat \<Rightarrow> Note list \<Rightarrow> rng \<Rightarrow> Note list \<times> rng" where
  "generateOutput_loop temp i notes g =
     (if i < 32 then
        (let (r1, g1) = Math_random g;
             p = 60 + of_int \<lfloor>r1 * temp * 24 - 12\<rfloor>;
             (r2, g2) = Math_random g1
         in generateOutput_loop temp (i + 1)
              (notes @ [mk_note (max 36 (min 96 p)) (of_nat i * 0.25) 0.25 (r2 * 0.4 + 0.6)]) g2)
      else (notes, g))"
  by pat_completeness auto
termination
  by (relation "measure (\<lambda>(temp, i, notes, g). 32 - i)") (auto simp: Math_random_def)

declare generateOutput_loop.simps [simp del]

definition generateOutput :: "AppState \<Rightarrow> layer_data \<Rightarrow> rng \<Rightarrow> Note list \<times> rng" where
  "generateOutput s latentData g = generateOutput_loop (temperature s) 0 [] g"

section \<open>DataGenerator: layer processing\<close>

text \<open>\<open>xs.map(f)\<close> with a callback that draws from the random source: the callback
  runs on the elements from left to right.\<close>

fun map_rng :: "('a \<Rightarrow> rng \<Rightarrow> 'b \<times> rng) \<Rightarrow> 'a list \<Rightarrow> rng \<Rightarrow> 'b list \<times> rng" where
  "map_rng f [] g = ([], g)"
| "map_rng f (x # xs) g =
     (let (y, g1) = f x g; (ys, g2) = map_rng f xs g1 in (y # ys, g2))"

text \<open>\<open>Array(n)\<close>: a \<open>RangeError\<close> unless \<open>n\<close> is an array length;
  \<open>Array(n).fill(0)\<close> is then \<open>n\<close> zeros.\<close>

definition js_Array_fill0 :: "int \<Rightarrow> js_error + real list" where
  "js_Array_fill0 n =
     (if 0 \<le> n \<and> n < 2 ^ 32 then Inr (replicate (nat n) 0) else Inl RangeError)"

text \<open>\<open>data.map\<close> is a \<open>TypeError\<close> when \<open>data\<close> is \<open>null\<close> or an object
  without a \<open>map\<close> method.\<close>

definition applyConvolution :: "layer_data \<Rightarrow> nat \<Rightarrow> rng \<Rightarrow> js_error + (layer_data \<times> rng)" where
  "applyConvolution d layerIndex g =
     (case d of
        NoteArray ns \<Rightarrow>
          (let (ns', g') =
                 map_rng (\<lambda>n g0. let (fs, g1) = map_rng (\<lambda>_. Math_random) (replicate 32 (0::real)) g0
                                  in (n\<lparr>features := Some fs\<rparr>, g1)) ns g
           in Inr (NoteArray ns', g'))
      | _ \<Rightarrow> Inl TypeError)"

definition applyLSTM :: "layer_data \<Rightarrow> rng \<Rightarrow> js_error + (layer_data \<times> rng)" where
  "applyLSTM d g =
     (case d of
        NoteArray ns \<Rightarrow>
          (let (ns', g') =
                 map_rng (\<lambda>n g0. let (h, g1) = Math_random g0; (c, g2) = Math_random g1
                                  in (n\<lparr>hidden := Some h, cell := Some c\<rparr>, g2)) ns g
           in Inr (NoteArray ns', g'))
      | _ \<Rightarrow> Inl TypeError)"

definition applyLatentSampling :: "AppState \<Rightarrow> layer_data \<Rightarrow> rng \<Rightarrow> js_error + (layer_data \<times> rng)" where
  "applyLatentSampling s d g =
     (case js_Array_fill0 (latentDim s) of
        Inl e \<Rightarrow> Inl e
      | Inr zeros \<Rightarrow>
          (let (m, g1) = map_rng (\<lambda>_ g0. let (r, g') = Math_random g0 in (r * 2 - 1, g')) zeros g;
               (sg, g2) = map_rng (\<lambda>_. Math_random) zeros g1;
               (zs, g3) = map_rng (\<lambda>_ g0. let (r, g') = Math_random g0 in (r * 2 - 1, g')) zeros g2
           in Inr (LatentSample m sg zs, g3)))"

definition applyAttention :: "layer_data \<Rightarrow> rng \<Rightarrow> js_error + (layer_data \<times> rng)" where
  "applyAttention d g =
     (case d of
        NoteArray ns \<Rightarrow>
          (let (ns', g') =
                 map_rng (\<lambda>n g0. let (a, g1) = Math_random g0
                                  in (n\<lparr>attention := Some a\<rparr>, g1)) ns g
           in Inr (NoteArray ns', g'))
      | _ \<Rightarrow> Inl TypeError)"

definition applyTimeEmbedding :: "rng \<Rightarrow> layer_data \<times> rng" where
  "applyTimeEmbedding g =
     (let (t, g1) = Math_random g;
          (e, g2) = map_rng (\<lambda>_. Math_random) (replicate 256 (0::real)) g1
      in (TimeEmbedding t e, g2))"

text \<open>A note literal of \<open>applyGenericTransform\<close>: \<open>pitch\<close>, \<open>velocity\<close> and
  \<open>duration\<close> only.\<close>

definition mk_untimed :: "real \<Rightarrow> real \<Rightarrow> real \<Rightarrow> Note" where
  "mk_untimed p v d =
     \<lparr>pitch = p, time = None, duration = d, velocity = v,
      features = None, hidden = None, cell = None, attention = None\<rparr>"

definition default_array :: "Note list" where
  "default_array = map (\<lambda>i. mk_untimed (of_nat i + 21) 0.5 0.5) [0..<88]"

text \<open>
  \<open>applyGenericTransform\<close>. For a non-array: an object with an \<open>embedding\<close> (an array is
  truthy, also when empty) is mapped to notes; the \<open>timestep\<close> branch is behind it and is
  reached by no value of the program, since the only object with a \<open>timestep\<close> has an
  \<open>embedding\<close>; everything else (\<open>null\<close>, the latent sample) gets the default array.
  For an array, the pitch draws first, the velocity second.
\<close>

definition applyGenericTransform :: "AppState \<Rightarrow> layer_data \<Rightarrow> nat \<Rightarrow> rng \<Rightarrow> layer_data \<times> rng" where
  "applyGenericTransform s d layerIndex g =
     (let temp = temperature s in
      case d of
        TimeEmbedding t e \<Rightarrow> (NoteArray (map (\<lambda>val. mk_untimed (val * 127) 0.8 0.5) e), g)
      | LatentSample m sg zs \<Rightarrow> (NoteArray default_array, g)
      | Null \<Rightarrow> (NoteArray default_array, g)
      | NoteArray ns \<Rightarrow>
          (let (ns', g') =
                 map_rng (\<lambda>n g0. let (r1, g1) = Math_random g0; (r2, g2) = Math_random g1
                                  in (n\<lparr>pitch := pitch n + (r1 - 0.5) * temp * 2,
                                         velocity := min 1 (max 0 (velocity n + (r2 - 0.5) * 0.2))\<rparr>, g2))
                   ns g
           in (NoteArray ns', g')))"

text \<open>\<open>generateActivationMap\<close>: two nested \<open>for\<close> loops over \<open>size = 16\<close>.\<close>

function generateActivationMap_row ::
  "nat \<Rightarrow> nat \<Rightarrow> nat \<Rightarrow> real list \<Rightarrow> rng \<Rightarrow> real list \<times> rng" where
  "generateActivationMap_row layerIndex i j row g =
     (if j < 16 then
        (let (r, g1) = Math_random g;
             v = r * 0.7 + 0.3 * sin (of_nat (i + j) * 0.5 + of_nat layerIndex)
         in generateActivationMap_row layerIndex i (j + 1) (row @ [max 0 (min 1 v)]) g1)
      else (row, g))"
  by pat_completeness auto
termination
  by (relation "measure (\<lambda>(layerIndex, i, j, row, g). 16 - j)") (auto simp: Math_random_def)

declare generateActivationMap_row.simps [simp del]

function generateActivationMap_rows ::
  "nat \<Rightarrow> nat \<Rightarrow> real list list \<Rightarrow> rng \<Rightarrow> real list list \<times> rng" where
  "generateActivationMap_rows layerIndex i amap g =
     (if i < 16 then
        (let (row, g1) = generateActivationMap_row layerIndex i 0 [] g
         in generateActivationMap_rows layerIndex (i + 1) (amap @ [row]) g1)
      else (amap, g))"
  by pat_completeness auto
termination
  by (relation "measure (\<lambda>(layerIndex, i, amap, g). 16 - i)") auto

declare generateActivationMap_rows.simps [simp del]

definition generateActivationMap :: "nat \<Rightarrow> rng \<Rightarrow> real list list \<times> rng" where
  "generateActivationMap layerIndex g = generateActivationMap_rows layerIndex 0 [] g"

text \<open>The \<open>switch\<close> of \<open>processLayer\<close> on \<open>layer.type\<close>.\<close>

definition layer_transform ::
  "AppState \<Rightarrow> string \<Rightarrow> layer_data \<Rightarrow> nat \<Rightarrow> rng \<Rightarrow> js_error + (layer_data \<times> rng)" where
  "layer_transform s ty input layerIndex g =
     (if ty = ''input'' then Inr (input, g)
      else if ty = ''conv'' \<or> ty = ''deconv'' then applyConvolution input layerIndex g
      else if ty = ''lstm'' then applyLSTM input g
      else if ty = ''latent'' then applyLatentSampling s input g
      else if ty = ''attention'' then applyAttention input g
      else if ty = ''time'' then Inr (applyTimeEmbedding g)
      else Inr (applyGenericTransform s input layerIndex g))"

text \<open>
  \<open>processLayer(layerIndex, inputData)\<close> (the parameter \<open>input\<close>). \<open>arch.layers\<close> of an unknown architecture
  and \<open>layer.type\<close> of an index outside the layers are \<open>TypeError\<close>s. Every error is
  raised before the first draw, so an error leaves the random source where it was.
\<close>

definition processLayer ::
  "AppState \<Rightarrow> nat \<Rightarrow> layer_data \<Rightarrow> rng \<Rightarrow> js_error + (layer_output \<times> rng)" where
  "processLayer s layerIndex input g =
     (case getCurrentArch s of
        None \<Rightarrow> Inl TypeError
      | Some arch \<Rightarrow>
          (if layerIndex < length (layers arch) then
             (let l = layers arch ! layerIndex in
              case layer_transform s (type l) input layerIndex g of
                Inl e \<Rightarrow> Inl e
              | Inr (outputData, g1) \<Rightarrow>
                  (let (act, g2) = generateActivationMap layerIndex g1
                   in Inr (\<lparr>layer = name l, ltype = type l, data = outputData,
                             activation = act\<rparr>, g2)))
           else Inl TypeError))"

section \<open>The application: effects, timers and the audio player\<close>

text \<open>
  The texts shown by \<open>updateExplanation\<close>, one constructor per template of app.js, with
  the interpolated values as arguments: \<open>Forward pass complete! Generated n notes\<close> is
  \<open>ForwardPassComplete n\<close>, and \<open>Generated t with n notes\<close> is \<open>GeneratedInput t n\<close>
  with \<open>t = typeNames[type]\<close> (\<open>None\<close> for \<open>undefined\<close>).
\<close>

datatype message =
    PleaseGenerateInput
  | ErrorGeneratingInput
  | ErrorDuringForwardPass
  | ErrorGeneratingData
  | NoOutputYet
  | GeneratedInput "string option" nat
  | ForwardPassComplete nat

text \<open>What a timer or an animation calls back: \<open>() => animateStep(step + 1)\<close>, the
  audio player's \<open>() => this.stop()\<close>, and the closure of
  \<open>updateTensorShapeDisplay\<close> that hides the tensor preview again.\<close>

datatype callback = AnimateStep nat | StopPlayback | HideTensorPreview

text \<open>The events of a \<open>Tone.Part\<close>: the \<open>time\<close>, \<open>pitch\<close>, \<open>duration\<close> and
  \<open>velocity\<close> of each note.\<close>

type_synonym part = "(real option \<times> real \<times> real \<times> real) list"

text \<open>
  The calls into the 3D renderer, the 2D visualizer, the DOM, the console and the
  synthesizer library are recorded, with their arguments, in the order they are made.
  The libraries behind them are not modelled.
\<close>

datatype effect =
    HighlightLayer int
  | AnimateDataFlow nat nat
  | UpdateLayerInfo layer_output int
  | AnimateProgress int nat
  | UpdateLayerList "layer_output list"
  | ShowLoadingAnimation
  | HideLoadingAnimation
  | DrawInput "Note list"
  | DrawOutput "Note list"
  | StepDisplay int nat
  | UpdateExplanation message
  | SetTextContent string string
  | ConsoleError js_error
  | ConsoleWarn string
  | ToneStart
  | PartStart part
  | PartStop
  | PartDispose
  | TransportStart
  | TransportStop
  | TransportCancel
  | SynthReleaseAll

text \<open>
  What the browser will run later: a timer (\<open>setTimeout(cb, delay)\<close>), a running
  data-flow animation that calls \<open>setTimeout(cb, delay)\<close> when its particles have
  arrived, and the rest of \<open>AudioPlayer.play\<close> behind \<open>await Tone.start()\<close>.
\<close>

datatype task =
    Timeout callback "real option"
  | DataFlow nat nat callback real
  | ToneStarted "Note list"

record AudioPlayer =
  isPlaying :: bool
  currentPart :: "part option"

text \<open>
  What the modelled functions read of the page and of the 3D scene:
  \<open>progressTextElem\<close> says whether \<open>document.querySelector('.progress-text')\<close>
  finds an element (the elements looked up by id are taken to exist);
  \<open>tensorCanvasSized\<close> says whether the tensor canvas, once \<open>updateLayerInfo\<close> has
  set its container to \<open>display: block\<close>, has a non-zero \<open>offsetWidth\<close> and
  \<open>offsetHeight\<close>; \<open>layerNodes\<close> is the length of \<open>engine3D.layerNodes\<close>, the
  layer groups built by \<open>buildNetwork\<close>, each of which has at least eight nodes
  (\<open>getNodeCount\<close>).
\<close>

record world =
  app :: AppState
  rnd :: rng
  effects :: "effect list"
  pending :: "task list"
  audioPlayer :: AudioPlayer
  progressTextElem :: bool
  tensorCanvasSized :: bool
  layerNodes :: nat

text \<open>A function that can throw returns the error together with the world at the
  \<open>throw\<close>: what it had assigned before stays assigned.\<close>

type_synonym result = "(js_error \<times> world) + world"

definition andThen :: "result \<Rightarrow> (world \<Rightarrow> result) \<Rightarrow> result" where
  "andThen r f = (case r of Inl e \<Rightarrow> Inl e | Inr w \<Rightarrow> f w)"

text \<open>The world a function leaves behind, whether it returned or threw.\<close>

definition result_world :: "result \<Rightarrow> world" where
  "result_world r = (case r of Inr w \<Rightarrow> w | Inl (e, w) \<Rightarrow> w)"

definition emit :: "effect \<Rightarrow> world \<Rightarrow> world" where
  "emit e w = w\<lparr>effects := effects w @ [e]\<rparr>"

definition schedule :: "task \<Rightarrow> world \<Rightarrow> world" where
  "schedule t w = w\<lparr>pending := pending w @ [t]\<rparr>"

definition updateExplanation :: "message \<Rightarrow> world \<Rightarrow> world" where
  "updateExplanation m w = emit (UpdateExplanation m) w"

subsection \<open>The visualizer's methods that read AppState\<close>

definition visualizer_animateProgress :: "int \<Rightarrow> nat \<Rightarrow> world \<Rightarrow> result" where
  "visualizer_animateProgress step tot w =
     (case getCurrentArch (app w) of
        None \<Rightarrow> Inl (TypeError, w)
      | Some arch \<Rightarrow> Inr (emit (AnimateProgress step tot) w))"

text \<open>
  \<open>updateLayerInfo(layerData, stepIndex)\<close> reads \<open>layer.name\<close> of
  \<open>arch.layers[stepIndex]\<close>, and ends in \<open>drawTensorWithInfo\<close> and
  \<open>drawTensorActivation\<close>. An activation map is an array, so it is never replaced by a
  generated one; when the canvas has a size, \<open>drawTensorActivation\<close> reads
  \<open>activationMap[0].length\<close>, a \<open>TypeError\<close> for a map without rows. A call is
  recorded when it returns.
\<close>

definition visualizer_updateLayerInfo :: "layer_output \<Rightarrow> int \<Rightarrow> world \<Rightarrow> result" where
  "visualizer_updateLayerInfo layerData stepIndex w =
     (case getCurrentArch (app w) of
        None \<Rightarrow> Inl (TypeError, w)
      | Some arch \<Rightarrow>
          (case js_index (layers arch) stepIndex of
             None \<Rightarrow> Inl (TypeError, w)
           | Some l \<Rightarrow>
               (if tensorCanvasSized w \<and> activation layerData = [] then Inl (TypeError, w)
                else Inr (emit (UpdateLayerInfo layerData stepIndex) w))))"

definition visualizer_updateLayerList :: "layer_output list \<Rightarrow> world \<Rightarrow> result" where
  "visualizer_updateLayerList ls w =
     (case getCurrentArch (app w) of
        None \<Rightarrow> Inl (TypeError, w)
      | Some arch \<Rightarrow> Inr (emit (UpdateLayerList ls) w))"

subsection \<open>Engine3D.animateDataFlow\<close>

text \<open>
  The four draws of one particle: the node it leaves, the node it goes to, its
  \<open>progress\<close> and its \<open>speed\<close>. The nodes are there, since every layer group has
  nodes. The particles themselves belong to the scene and are not modelled.
\<close>

definition particle_draws :: "rng \<Rightarrow> rng" where
  "particle_draws g =
     (let (pick_from, g1) = Math_random g;
          (pick_to, g2) = Math_random g1;
          (progress, g3) = Math_random g2;
          (speed, g4) = Math_random g3
      in g4)"

function animateDataFlow_particles :: "nat \<Rightarrow> rng \<Rightarrow> rng" where
  "animateDataFlow_particles i g =
     (if i < 40 then animateDataFlow_particles (i + 1) (particle_draws g) else g)"
  by pat_completeness auto
termination
  by (relation "measure (\<lambda>(i, g). 40 - i)") auto

declare animateDataFlow_particles.simps [simp del]

text \<open>
  \<open>animateDataFlow(fromLayer, toLayer, callback)\<close>, where \<open>callback\<close> is
  \<open>() => setTimeout(cb, delay)\<close>, the only closure app.js passes. Without one of the
  two layer groups the callback runs at once. Otherwise each particle draws and then reads
  \<open>arch.layers[fromLayer].outputShape\<close> and \<open>arch.layers[toLayer].outputShape\<close>,
  a \<open>TypeError\<close> at the first particle when the architecture or one of the layers
  is missing; \<open>updateTensorShapeDisplay\<close> sets its timer of 2000 ms; and the animation
  runs on animation frames until every particle has arrived (each frame adds a
  \<open>speed\<close> of at least \<open>0.015\<close>) and calls the callback.
\<close>

definition engine3D_animateDataFlow ::
  "nat \<Rightarrow> nat \<Rightarrow> callback \<Rightarrow> real \<Rightarrow> world \<Rightarrow> result" where
  "engine3D_animateDataFlow fromLayer toLayer cb delay w =
     (if fromLayer < layerNodes w \<and> toLayer < layerNodes w then
        (case getCurrentArch (app w) of
           None \<Rightarrow> Inl (TypeError, w\<lparr>rnd := particle_draws (rnd w)\<rparr>)
         | Some arch \<Rightarrow>
             (if fromLayer < length (layers arch) \<and> toLayer < length (layers arch) then
                (let w1 = w\<lparr>rnd := animateDataFlow_particles 0 (rnd w)\<rparr>;
                     w2 = schedule (Timeout HideTensorPreview (Some 2000)) w1;
                     w3 = schedule (DataFlow fromLayer toLayer cb delay) w2
                 in Inr (emit (AnimateDataFlow fromLayer toLayer) w3))
              else Inl (TypeError, w\<lparr>rnd := particle_draws (rnd w)\<rparr>)))
      else Inr (emit (AnimateDataFlow fromLayer toLayer)
                  (schedule (Timeout cb (Some delay)) w)))"

subsection \<open>AudioPlayer\<close>


text \<open>\<open>play(notes)\<close> up to \<open>await Tone.start()\<close>; \<open>None\<close> is \<open>null\<close>.\<close>

definition AudioPlayer_play :: "Note list option \<Rightarrow> world \<Rightarrow> world" where
  "AudioPlayer_play notes w =
     (case notes of
        None \<Rightarrow> emit (ConsoleWarn ''No notes to play'') w
      | Some ns \<Rightarrow>
          (if length ns = 0 then emit (ConsoleWarn ''No notes to play'') w
           else schedule (ToneStarted ns) (emit ToneStart w)))"


section \<open>app.js\<close>

text \<open>The two statements \<open>AppState.outputNotes = dataGenerator.generateOutput(d.data);
  visualizer.drawOutput(AppState.outputNotes)\<close>, which app.js has three times.\<close>

definition generateOutput_and_draw :: "layer_output \<Rightarrow> world \<Rightarrow> world" where
  "generateOutput_and_draw layerData w =
     (let (ns, g') = generateOutput (app w) (data layerData) (rnd w);
          w1 = w\<lparr>app := (app w)\<lparr>outputNotes := ns\<rparr>, rnd := g'\<rparr>
      in emit (DrawOutput ns) w1)"

text \<open>\<open>updateStepView\<close>; \<open>currentStep || 0\<close> is \<open>currentStep\<close>.\<close>

definition updateStepView :: "world \<Rightarrow> result" where
  "updateStepView w =
     (let step = currentStep (app w);
          layerData = js_index (layerOutputs (app w)) step
      in andThen
           (if progressTextElem w then
              (case getCurrentArch (app w) of
                 None \<Rightarrow> Inl (TypeError, w)
               | Some arch \<Rightarrow> Inr (emit (StepDisplay step (length (layers arch))) w))
            else Inr w)
        (\<lambda>w1. andThen
           (case layerData of
              Some ld \<Rightarrow> visualizer_updateLayerInfo ld step (emit (HighlightLayer step) w1)
            | None \<Rightarrow> Inr (emit (HighlightLayer step) w1))
        (\<lambda>w2. andThen
           (visualizer_animateProgress step (length (layerOutputs (app w2))) w2)
        (\<lambda>w3. andThen
           (visualizer_updateLayerList (layerOutputs (app w3)) w3)
        (\<lambda>w4. Inr (case layerData of
                      Some ld \<Rightarrow>
                        (if step = int (length (layerOutputs (app w4))) - 1
                         then generateOutput_and_draw ld w4 else w4)
                    | None \<Rightarrow> w4))))))"

definition completeForwardPass :: "world \<Rightarrow> result" where
  "completeForwardPass w =
     (let w1 = emit HideLoadingAnimation (w\<lparr>app := (app w)\<lparr>isAnimating := False\<rparr>\<rparr>)
      in case getCurrentArch (app w1) of
           None \<Rightarrow> Inl (TypeError, w1)
         | Some arch \<Rightarrow>
             (let w2 = w1\<lparr>app := (app w1)\<lparr>currentStep := int (length (layers arch)) - 1\<rparr>\<rparr>;
                  finalLayerData =
                    js_index (layerOutputs (app w2)) (int (length (layerOutputs (app w2))) - 1);
                  w3 = (case finalLayerData of
                          Some ld \<Rightarrow> generateOutput_and_draw ld w2
                        | None \<Rightarrow> w2)
              in andThen (updateStepView w3)
                   (\<lambda>w4. Inr (updateExplanation
                                 (ForwardPassComplete (length (outputNotes (app w4)))) w4))))"

text \<open>
  \<open>animateStep(step)\<close>. The second read of \<open>layerOutputs[step]\<close> returns what the first
  did. \<open>1000 / animationSpeed\<close> at speed \<open>0\<close> is \<open>Infinity\<close> in JavaScript, which
  \<open>setTimeout\<close> takes as \<open>0\<close>, the value of the division here.
\<close>

definition animateStep :: "nat \<Rightarrow> world \<Rightarrow> result" where
  "animateStep step w =
     (case getCurrentArch (app w) of
        None \<Rightarrow> Inl (TypeError, w)
      | Some arch \<Rightarrow>
          (let totalLayers = length (layers arch) in
           if step \<ge> totalLayers then completeForwardPass w
           else
             (let w1 = w\<lparr>app := (app w)\<lparr>currentStep := int step\<rparr>\<rparr>;
                  layerData = js_index (layerOutputs (app w1)) (int step);
                  w2 = emit (HighlightLayer (int step)) w1
              in andThen
                   (case layerData of
                      Some ld \<Rightarrow> visualizer_updateLayerInfo ld (int step) w2
                    | None \<Rightarrow> Inr w2)
                (\<lambda>w3. andThen (visualizer_animateProgress (int step) totalLayers w3)
                (\<lambda>w4. andThen (visualizer_updateLayerList (layerOutputs (app w4)) w4)
                (\<lambda>w5.
                   (if isAnimating (app w5) \<or> isAutoPlaying (app w5) then
                      (if int step < int totalLayers - 1 then
                         (let delay = 1000 / animationSpeed (app w5) in
                          if int step < int (length (layerOutputs (app w5))) - 1 then
                            engine3D_animateDataFlow step (step + 1) (AnimateStep (step + 1))
                              delay w5
                          else Inr (schedule (Timeout (AnimateStep (step + 1)) (Some delay)) w5))
                       else Inr (schedule (Timeout (AnimateStep (step + 1)) (Some 500)) w5))
                    else Inr w5)))))))"

text \<open>
  The loop \<open>arch.layers.forEach((layer, index) => ...)\<close> of \<open>processAllLayers\<close>, which
  \<open>generateDataOnly\<close> and \<open>jumpToStep\<close> repeat: each round calls \<open>processLayer\<close>,
  pushes its result and hands its \<open>data\<close> to the next round.
\<close>

fun layers_forEach :: "Layer list \<Rightarrow> nat \<Rightarrow> layer_data \<Rightarrow> world \<Rightarrow> result" where
  "layers_forEach [] index currentData w = Inr w"
| "layers_forEach (l # ls) index currentData w =
     (case processLayer (app w) index currentData (rnd w) of
        Inl e \<Rightarrow> Inl (e, w)
      | Inr (layerOutput, g') \<Rightarrow>
          layers_forEach ls (index + 1) (data layerOutput)
            (w\<lparr>app := (app w)\<lparr>layerOutputs := layerOutputs (app w) @ [layerOutput]\<rparr>,
               rnd := g'\<rparr>))"

definition input_data :: "AppState \<Rightarrow> layer_data" where
  "input_data s = (case inputData s of None \<Rightarrow> Null | Some ns \<Rightarrow> NoteArray ns)"

definition processAllLayers :: "world \<Rightarrow> result" where
  "processAllLayers w =
     (case getCurrentArch (app w) of
        None \<Rightarrow> Inl (TypeError, w)
      | Some arch \<Rightarrow>
          andThen (layers_forEach (layers arch) 0 (input_data (app w)) w) (animateStep 0))"

text \<open>\<open>!AppState.inputData || AppState.inputData.length === 0\<close>.\<close>

definition no_input :: "AppState \<Rightarrow> bool" where
  "no_input s = (case inputData s of None \<Rightarrow> True | Some ns \<Rightarrow> length ns = 0)"

text \<open>The state in which \<open>runForwardPass\<close> calls \<open>processAllLayers\<close>.\<close>

definition runForwardPass_begin :: "world \<Rightarrow> world" where
  "runForwardPass_begin w =
     (let w1 = w\<lparr>app := reset (app w)\<rparr>;
          w2 = w1\<lparr>app := (app w1)\<lparr>isAnimating := True\<rparr>\<rparr>
      in emit ShowLoadingAnimation w2)"

definition runForwardPass :: "world \<Rightarrow> world" where
  "runForwardPass w =
     (if no_input (app w) then updateExplanation PleaseGenerateInput w
      else if isAnimating (app w) then w
      else
        (case processAllLayers (runForwardPass_begin w) of
           Inr w' \<Rightarrow> w'
         | Inl (e, w') \<Rightarrow>
             (let w1 = emit (ConsoleError e) w';
                  w2 = w1\<lparr>app := (app w1)\<lparr>isAnimating := False\<rparr>\<rparr>;
                  w3 = emit HideLoadingAnimation w2
              in updateExplanation ErrorDuringForwardPass w3)))"

definition generateDataOnly :: "world \<Rightarrow> world" where
  "generateDataOnly w =
     (if no_input (app w) then updateExplanation PleaseGenerateInput w
      else
        (let w1 = w\<lparr>app := reset (app w)\<rparr> in
         case (case getCurrentArch (app w1) of
                 None \<Rightarrow> Inl (TypeError, w1)
               | Some arch \<Rightarrow>
                   andThen (layers_forEach (layers arch) 0 (input_data (app w1)) w1)
                     (\<lambda>w2. updateStepView (w2\<lparr>app := (app w2)\<lparr>currentStep := 0\<rparr>\<rparr>))) of
           Inr w' \<Rightarrow> w'
         | Inl (e, w') \<Rightarrow> updateExplanation ErrorGeneratingData (emit (ConsoleError e) w')))"

definition stepForward :: "world \<Rightarrow> result" where
  "stepForward w =
     (if isAnimating (app w) then Inr w
      else if length (layerOutputs (app w)) = 0 then Inr (generateDataOnly w)
      else
        (case getCurrentArch (app w) of
           None \<Rightarrow> Inl (TypeError, w)
         | Some arch \<Rightarrow>
             (let totalLayers = length (layers arch) in
              if currentStep (app w) < int totalLayers - 1 then
                (let w1 = w\<lparr>app := (app w)\<lparr>currentStep := currentStep (app w) + 1\<rparr>\<rparr>;
                     step = currentStep (app w1);
                     layerData = js_index (layerOutputs (app w1)) step;
                     w2 = emit (HighlightLayer step) w1
                 in andThen
                      (case layerData of
                         Some ld \<Rightarrow> visualizer_updateLayerInfo ld step w2
                       | None \<Rightarrow> Inr w2)
                   (\<lambda>w3. andThen (visualizer_animateProgress step totalLayers w3)
                   (\<lambda>w4. andThen (visualizer_updateLayerList (layerOutputs (app w4)) w4)
                   (\<lambda>w5. Inr (case layerData of
                                 Some ld \<Rightarrow>
                                   (if step = int totalLayers - 1
                                    then generateOutput_and_draw ld w5 else w5)
                               | None \<Rightarrow> w5)))))
              else Inr w)))"

definition stepBack :: "world \<Rightarrow> result" where
  "stepBack w =
     (if isAnimating (app w) then Inr w
      else if length (layerOutputs (app w)) = 0 then Inr w
      else if currentStep (app w) > 0 then
        (let w1 = w\<lparr>app := (app w)\<lparr>currentStep := currentStep (app w) - 1\<rparr>\<rparr>;
             step = currentStep (app w1);
             layerData = js_index (layerOutputs (app w1)) step;
             w2 = emit (HighlightLayer step) w1
         in andThen
              (case layerData of
                 Some ld \<Rightarrow> visualizer_updateLayerInfo ld step w2
               | None \<Rightarrow> Inr w2)
           (\<lambda>w3. case getCurrentArch (app w3) of
                    None \<Rightarrow> Inl (TypeError, w3)
                  | Some arch \<Rightarrow>
                      andThen (visualizer_animateProgress step (length (layers arch)) w3)
                        (\<lambda>w4. visualizer_updateLayerList (layerOutputs (app w4)) w4)))
      else Inr w)"

subsection \<open>Event handlers\<close>

text \<open>The slider handlers; \<open>parseFloat\<close> and \<open>parseInt\<close> are the language's, and are
  parameters here. \<open>v\<close> is \<open>e.target.value\<close>.\<close>

definition temp_slider_input :: "(string \<Rightarrow> real) \<Rightarrow> string \<Rightarrow> world \<Rightarrow> world" where
  "temp_slider_input parseFloat v w =
     emit (SetTextContent ''temp-display'' v)
       (w\<lparr>app := (app w)\<lparr>temperature := parseFloat v\<rparr>\<rparr>)"

definition latent_slider_input :: "(string \<Rightarrow> int) \<Rightarrow> string \<Rightarrow> world \<Rightarrow> world" where
  "latent_slider_input parseInt v w =
     emit (SetTextContent ''latent-display'' v)
       (w\<lparr>app := (app w)\<lparr>latentDim := parseInt v\<rparr>\<rparr>)"

definition speed_slider_input :: "(string \<Rightarrow> real) \<Rightarrow> string \<Rightarrow> world \<Rightarrow> world" where
  "speed_slider_input parseFloat v w =
     emit (SetTextContent ''speed-display'' (v @ ''x''))
       (w\<lparr>app := (app w)\<lparr>animationSpeed := parseFloat v\<rparr>\<rparr>)"

definition play_btn_click :: "world \<Rightarrow> world" where
  "play_btn_click w =
     (if length (outputNotes (app w)) > 0
      then AudioPlayer_play (Some (outputNotes (app w))) w
      else updateExplanation NoOutputYet w)"

definition typeNames :: "(string \<times> string) list" where
  "typeNames =
     [(''random'', ''random melody''), (''scale'', ''C major scale''),
      (''chord'', ''chord progression'')]"

text \<open>\<open>generateInput(type)\<close> of app.js.\<close>

definition app_generateInput :: "string \<Rightarrow> world \<Rightarrow> world" where
  "app_generateInput ty w =
     (let (ns, g') = generateInput ty (rnd w);
          w1 = w\<lparr>app := (app w)\<lparr>inputNotes := ns, inputData := Some ns\<rparr>, rnd := g'\<rparr>;
          w2 = emit (DrawInput ns) w1
      in case visualizer_updateLayerList [] w2 of
           Inr w3 \<Rightarrow>
             updateExplanation (GeneratedInput (map_of typeNames ty) (length ns))
               (w3\<lparr>app := reset (app w3)\<rparr>)
         | Inl (e, w') \<Rightarrow> updateExplanation ErrorGeneratingInput (emit (ConsoleError e) w'))"

subsection \<open>The browser's task queue\<close>



subsection \<open>The state the page starts in\<close>

text \<open>The literal of \<open>AppState\<close> in app-state.js; and the world once \<open>initApp\<close> has
  run: \<open>buildNetwork('VAE')\<close> has built the seven layer groups and set
  \<open>totalSteps\<close>, the audio player has the fields its constructor sets.\<close>

definition initial_AppState :: AppState where
  "initial_AppState =
     \<lparr>currentArchitecture = ''VAE'', inputData = None, inputNotes = [], layerOutputs = [],
      currentStep = 0, totalSteps = 0, isAnimating = False, isAutoPlaying = False,
      animationSpeed = 1.0, temperature = 1.0, latentDim = 128, outputNotes = []\<rparr>"

definition initial_world :: "rng \<Rightarrow> world" where
  "initial_world g =
     \<lparr>app = initial_AppState\<lparr>totalSteps := 7\<rparr>, rnd = g, effects = [], pending = [],
      audioPlayer = \<lparr>isPlaying = False, currentPart = None\<rparr>, progressTextElem = True,
      tensorCanvasSized = True, layerNodes = 7\<rparr>"

subsection \<open>Predicates and inputs used in the statements\<close>

text \<open>What \<open>generateRandom\<close> and \<open>generateOutput\<close> promise of each note they
  push: the pitch clamped to \<open>[36, 96]\<close>, the duration \<open>0.25\<close>, the velocity in
  \<open>[0.6, 1]\<close>.\<close>

definition fresh_note :: "Note \<Rightarrow> bool" where
  "fresh_note n \<longleftrightarrow>
     36 \<le> pitch n \<and> pitch n \<le> 96 \<and> duration n = 0.25 \<and> 0.6 \<le> velocity n \<and> velocity n \<le> 1"

text \<open>A random source that always returns \<open>0\<close>.\<close>

definition zero_rng :: rng where
  "zero_rng = \<lparr>source = (\<lambda>_. 0), pos = 0\<rparr>"


text \<open>The step \<open>k\<close> of the \<open>animateStep(k)\<close> a pending task leads to, if it leads
  to one; and the steps the queue carries.\<close>

fun task_step :: "task \<Rightarrow> nat option" where
  "task_step (Timeout (AnimateStep k) d) = Some k"
| "task_step (DataFlow a b (AnimateStep k) d) = Some k"
| "task_step t = None"

definition carried :: "task list \<Rightarrow> nat list" where
  "carried ts = List.map_filter task_step ts"

text \<open>What \<open>animateStep(step)\<close> schedules in an architecture of \<open>n\<close> layers when it
  goes on: the timer of its last branch; or the timer of its middle branch; or what
  \<open>animateDataFlow\<close> schedules, with or without the two layer groups. Exactly one of
  the tasks leads to \<open>animateStep(step + 1)\<close>.\<close>

definition next_tasks :: "nat \<Rightarrow> world \<Rightarrow> nat \<Rightarrow> task list" where
  "next_tasks n w step =
     (if step + 1 < n then
        (if step + 1 < length (layerOutputs (app w)) then
           (if step + 1 < layerNodes w
            then [Timeout HideTensorPreview (Some 2000),
                  DataFlow step (step + 1) (AnimateStep (step + 1)) (1000 / animationSpeed (app w))]
            else [Timeout (AnimateStep (step + 1)) (Some (1000 / animationSpeed (app w)))])
         else [Timeout (AnimateStep (step + 1)) (Some (1000 / animationSpeed (app w)))])
      else [Timeout (AnimateStep (step + 1)) (Some 500)])"

text \<open>The cached outputs can be drawn: \<open>drawTensorActivation\<close> finds a first row in
  every activation map, or the canvas has no size. Every output of \<open>processLayer\<close> has
  sixteen rows.\<close>

definition outputs_drawable :: "world \<Rightarrow> bool" where
  "outputs_drawable w \<longleftrightarrow>
     (tensorCanvasSized w \<longrightarrow> (\<forall>out\<in>set (layerOutputs (app w)). activation out \<noteq> []))"



text \<open>The last call recorded after \<open>completeForwardPass\<close>: its message.\<close>

definition complete_message :: "result \<Rightarrow> effect" where
  "complete_message r = last (effects (result_world r))"

text \<open>
  Worlds for concrete runs. \<open>cached_outputs\<close> has one output per layer of the VAE, each
  with one input note as data and an activation map of sixteen rows of sixteen values;
  \<open>stepping_world\<close> has them cached and is at step \<open>1\<close>; in \<open>walking_world\<close> a
  forward pass is animating over them.
\<close>

definition one_note_input :: "Note list" where
  "one_note_input = [mk_note 60 0 0.25 0.8]"

definition cached_outputs :: "layer_output list" where
  "cached_outputs =
     map (\<lambda>l. \<lparr>layer = name l, ltype = type l, data = NoteArray one_note_input,
               activation = replicate 16 (replicate 16 (1 / 2))\<rparr>) VAE_layers"

definition stepping_world :: world where
  "stepping_world =
     (initial_world zero_rng)
       \<lparr>app := (app (initial_world zero_rng))
                 \<lparr>inputData := Some one_note_input, layerOutputs := cached_outputs,
                  currentStep := 1\<rparr>\<rparr>"


subsection \<open>What the layer transforms need and draw\<close>

text \<open>
  Read off the transforms of \<open>DataGenerator\<close>, for the statements about
  \<open>processLayer\<close>: whether a value is an array; which layer types call \<open>data.map\<close>
  on their input; when a transform runs without an exception (\<open>data.map\<close> has an array,
  \<open>Array(latentDim)\<close> has an array length); how many numbers a transform draws (the
  generic transform draws two per note of an array and none for any other value); and
  whether its result is an array.
\<close>

definition is_array :: "layer_data \<Rightarrow> bool" where
  "is_array d = (case d of NoteArray ns \<Rightarrow> True | _ \<Rightarrow> False)"

definition maps_array :: "string \<Rightarrow> bool" where
  "maps_array ty \<longleftrightarrow> ty = ''conv'' \<or> ty = ''deconv'' \<or> ty = ''lstm'' \<or> ty = ''attention''"

definition array_length :: "layer_data \<Rightarrow> nat" where
  "array_length d = (case d of NoteArray ns \<Rightarrow> length ns | _ \<Rightarrow> 0)"

definition transform_defined :: "AppState \<Rightarrow> string \<Rightarrow> layer_data \<Rightarrow> bool" where
  "transform_defined s ty d \<longleftrightarrow>
     (maps_array ty \<longrightarrow> is_array d)
     \<and> (ty = ''latent'' \<longrightarrow> 0 \<le> latentDim s \<and> latentDim s < 2 ^ 32)"

definition transform_draws :: "AppState \<Rightarrow> string \<Rightarrow> layer_data \<Rightarrow> nat" where
  "transform_draws s ty d =
     (if ty = ''input'' then 0
      else if ty = ''conv'' \<or> ty = ''deconv'' then 32 * array_length d
      else if ty = ''lstm'' then 2 * array_length d
      else if ty = ''latent'' then 3 * nat (latentDim s)
      else if ty = ''attention'' then array_length d
      else if ty = ''time'' then 257
      else 2 * array_length d)"

definition transform_array_out :: "string \<Rightarrow> bool \<Rightarrow> bool" where
  "transform_array_out ty a = (if ty = ''input'' then a else ty \<noteq> ''latent'' \<and> ty \<noteq> ''time'')"

text \<open>The same along a list of layer types, from an input that is an array or not.\<close>

fun flow_ok :: "AppState \<Rightarrow> string list \<Rightarrow> bool \<Rightarrow> bool" where
  "flow_ok s [] a = True"
| "flow_ok s (ty # tys) a =
     ((maps_array ty \<longrightarrow> a)
      \<and> (ty = ''latent'' \<longrightarrow> 0 \<le> latentDim s \<and> latentDim s < 2 ^ 32)
      \<and> flow_ok s tys (transform_array_out ty a))"

fun array_after :: "string list \<Rightarrow> bool \<Rightarrow> bool" where
  "array_after [] a = a"
| "array_after (ty # tys) a = array_after tys (transform_array_out ty a)"

text \<open>Worlds with one input note: ready for a forward pass; with a pass already
  animating; with a latent dimension that is no array length; with an architecture key that
  \<open>architectures\<close> does not have.\<close>

definition ready_world :: world where
  "ready_world =
     (initial_world zero_rng)
       \<lparr>app := (app (initial_world zero_rng))\<lparr>inputData := Some one_note_input\<rparr>\<rparr>"

definition busy_world :: world where
  "busy_world = ready_world\<lparr>app := (app ready_world)\<lparr>isAnimating := True\<rparr>\<rparr>"

definition bad_latent_world :: world where
  "bad_latent_world = ready_world\<lparr>app := (app ready_world)\<lparr>latentDim := - 1\<rparr>\<rparr>"

definition unknown_arch_world :: world where
  "unknown_arch_world =
     ready_world\<lparr>app := (app ready_world)\<lparr>currentArchitecture := ''GAN''\<rparr>\<rparr>"

section \<open>Architecture presets\<close>

text \<open>
  Claim C5. \<open>AppState.architectures\<close> has exactly the four keys \<open>VAE\<close>, \<open>LSTM\<close>,
  \<open>Transformer\<close> and \<open>Diffusion\<close>, and for each of them as the current architecture,
  whatever the rest of the state, \<open>getCurrentArch\<close> returns the preset stored under
  that key.
\<close>

theorem architectures_four_presets:
  "map fst architectures = [''VAE'', ''LSTM'', ''Transformer'', ''Diffusion'']
   \<and> getCurrentArch (s\<lparr>currentArchitecture := ''VAE''\<rparr>)
       = Some \<lparr>arch_name = ''Variational Autoencoder'', layers = VAE_layers\<rparr>
   \<and> getCurrentArch (s\<lparr>currentArchitecture := ''LSTM''\<rparr>)
       = Some \<lparr>arch_name = ''LSTM Recurrent Network'', layers = LSTM_layers\<rparr>
   \<and> getCurrentArch (s\<lparr>currentArchitecture := ''Transformer''\<rparr>)
       = Some \<lparr>arch_name = ''Transformer Architecture'', layers = Transformer_layers\<rparr>
   \<and> getCurrentArch (s\<lparr>currentArchitecture := ''Diffusion''\<rparr>)
       = Some \<lparr>arch_name = ''Diffusion Model'', layers = Diffusion_layers\<rparr>"
  by (simp add: architectures_def getCurrentArch_def)

section \<open>Slider handlers\<close>

text \<open>
  Claim C8. Each slider handler assigns one field of \<open>AppState\<close>: the temperature slider
  \<open>temperature\<close>, the latent slider \<open>latentDim\<close>, the speed slider
  \<open>animationSpeed\<close>, each the parsed value of the slider; the state after the handler is
  the state before it with that one field replaced.
\<close>

theorem slider_handlers_frame:
  "app (temp_slider_input parseFloat v w) = (app w)\<lparr>temperature := parseFloat v\<rparr>
   \<and> app (latent_slider_input parseInt v w) = (app w)\<lparr>latentDim := parseInt v\<rparr>
   \<and> app (speed_slider_input parseFloat v w) = (app w)\<lparr>animationSpeed := parseFloat v\<rparr>"
  by (simp add: temp_slider_input_def latent_slider_input_def speed_slider_input_def emit_def)

section \<open>Audio playback of an empty sequence\<close>

text \<open>
  Claim C6. \<open>AudioPlayer.play\<close> called with \<open>null\<close> or with an empty list logs the
  console warning and does nothing else: the world after the call is the world before it
  with the warning appended to the recorded calls, so no call into the synthesizer or the
  transport is made, nothing is scheduled, and \<open>isPlaying\<close> and \<open>currentPart\<close> are
  what they were. The Play button's handler calls \<open>play\<close> when \<open>outputNotes\<close> is
  non-empty, and otherwise only shows a message.
\<close>

theorem play_guards_empty_sequence:
  "AudioPlayer_play None w = w\<lparr>effects := effects w @ [ConsoleWarn ''No notes to play'']\<rparr>
   \<and> AudioPlayer_play (Some []) w = w\<lparr>effects := effects w @ [ConsoleWarn ''No notes to play'']\<rparr>
   \<and> play_btn_click w =
       (if outputNotes (app w) = []
        then w\<lparr>effects := effects w @ [UpdateExplanation NoOutputYet]\<rparr>
        else AudioPlayer_play (Some (outputNotes (app w))) w)"
  by (simp add: AudioPlayer_play_def emit_def play_btn_click_def updateExplanation_def)

section \<open>Facts about the generators\<close>

lemma Math_random_ok: "rng_ok g \<Longrightarrow> rng_ok (snd (Math_random g))"
  by (simp add: rng_ok_def Math_random_def)

lemma Math_random_range: "rng_ok g \<Longrightarrow> 0 \<le> fst (Math_random g) \<and> fst (Math_random g) < 1"
  by (simp add: rng_ok_def Math_random_def)

lemma fresh_note_mk:
  "0 \<le> r \<Longrightarrow> r < 1 \<Longrightarrow> fresh_note (mk_note (max 36 (min 96 p)) t 0.25 (r * 0.4 + 0.6))"
  by (simp add: fresh_note_def mk_note_def)

lemma generateRandom_loop_times:
  "map time (fst (generateRandom_loop i ns g)) =
     map time ns @ map (\<lambda>j. Some (of_nat j * 0.25)) [i..<32]"
proof (induction i ns g rule: generateRandom_loop.induct)
  case (1 i ns g)
  show ?case
  proof (cases "i < 32")
    case True
    obtain r1 g1 where a: "Math_random g = (r1, g1)" by (cases "Math_random g")
    obtain r2 g2 where b: "Math_random g1 = (r2, g2)" by (cases "Math_random g1")
    from "1.IH" [OF True refl a [symmetric] refl refl b [symmetric]]
    show ?thesis
      using True a b
      by (subst generateRandom_loop.simps) (simp add: mk_note_def upt_conv_Cons)
  next
    case False
    then show ?thesis
      by (subst generateRandom_loop.simps) simp
  qed
qed

lemma generateRandom_loop_fresh:
  "rng_ok g \<Longrightarrow> \<forall>n\<in>set ns. fresh_note n \<Longrightarrow>
     \<forall>n\<in>set (fst (generateRandom_loop i ns g)). fresh_note n"
proof (induction i ns g rule: generateRandom_loop.induct)
  case (1 i ns g)
  show ?case
  proof (cases "i < 32")
    case True
    obtain r1 g1 where a: "Math_random g = (r1, g1)" by (cases "Math_random g")
    obtain r2 g2 where b: "Math_random g1 = (r2, g2)" by (cases "Math_random g1")
    have g1: "rng_ok g1" using Math_random_ok [OF "1.prems"(1)] a by simp
    have g2: "rng_ok g2" using Math_random_ok [OF g1] b by simp
    have r2: "0 \<le> r2 \<and> r2 < 1" using Math_random_range [OF g1] b by simp
    let ?n = "mk_note (max 36 (min 96 (60 + of_int \<lfloor>r1 * 25\<rfloor> - 12))) (of_nat i * 0.25) 0.25 (r2 * 0.4 + 0.6)"
    have "fresh_note ?n" using r2 fresh_note_mk by blast
    with "1.prems"(2) have "\<forall>n\<in>set (ns @ [?n]). fresh_note n" by simp
    from "1.IH" [OF True refl a [symmetric] refl refl b [symmetric] g2 this]
    show ?thesis
      using True a b by (subst generateRandom_loop.simps) simp
  next
    case False
    then show ?thesis
      using "1.prems" by (subst generateRandom_loop.simps) simp
  qed
qed

lemma generateOutput_loop_times:
  "map time (fst (generateOutput_loop temp i ns g)) =
     map time ns @ map (\<lambda>j. Some (of_nat j * 0.25)) [i..<32]"
proof (induction temp i ns g rule: generateOutput_loop.induct)
  case (1 temp i ns g)
  show ?case
  proof (cases "i < 32")
    case True
    obtain r1 g1 where a: "Math_random g = (r1, g1)" by (cases "Math_random g")
    obtain r2 g2 where b: "Math_random g1 = (r2, g2)" by (cases "Math_random g1")
    from "1.IH" [OF True refl a [symmetric] refl refl b [symmetric]]
    show ?thesis
      using True a b
      by (subst generateOutput_loop.simps) (simp add: mk_note_def upt_conv_Cons)
  next
    case False
    then show ?thesis
      by (subst generateOutput_loop.simps) simp
  qed
qed

lemma generateOutput_loop_fresh:
  "rng_ok g \<Longrightarrow> \<forall>n\<in>set ns. fresh_note n \<Longrightarrow>
     \<forall>n\<in>set (fst (generateOutput_loop temp i ns g)). fresh_note n"
proof (induction temp i ns g rule: generateOutput_loop.induct)
  case (1 temp i ns g)
  show ?case
  proof (cases "i < 32")
    case True
    obtain r1 g1 where a: "Math_random g = (r1, g1)" by (cases "Math_random g")
    obtain r2 g2 where b: "Math_random g1 = (r2, g2)" by (cases "Math_random g1")
    have g1: "rng_ok g1" using Math_random_ok [OF "1.prems"(1)] a by simp
    have g2: "rng_ok g2" using Math_random_ok [OF g1] b by simp
    have r2: "0 \<le> r2 \<and> r2 < 1" using Math_random_range [OF g1] b by simp
    let ?n = "mk_note (max 36 (min 96 (60 + of_int \<lfloor>r1 * temp * 24 - 12\<rfloor>))) (of_nat i * 0.25) 0.25 (r2 * 0.4 + 0.6)"
    have "fresh_note ?n" using r2 fresh_note_mk by blast
    with "1.prems"(2) have "\<forall>n\<in>set (ns @ [?n]). fresh_note n" by simp
    from "1.IH" [OF True refl a [symmetric] refl refl b [symmetric] g2 this]
    show ?thesis
      using True a b by (subst generateOutput_loop.simps) simp
  next
    case False
    then show ?thesis
      using "1.prems" by (subst generateOutput_loop.simps) simp
  qed
qed

lemma map_time_length: "map time ns = map f [0..<k] \<Longrightarrow> length ns = k"
  by (metis length_map length_upt minus_nat.diff_0)

lemma generateOutput_length: "length (fst (generateOutput s d g)) = 32"
  using generateOutput_loop_times [of "temperature s" 0 "[]" g]
  by (simp add: generateOutput_def map_time_length)

lemma generateOutput_time:
  "i < 32 \<Longrightarrow> time (fst (generateOutput s d g) ! i) = Some (of_nat i * 0.25)"
proof -
  assume i: "i < 32"
  have "map time (fst (generateOutput s d g)) ! i = map (\<lambda>j. Some (real j * 0.25)) [0..<32] ! i"
    using generateOutput_loop_times [of "temperature s" 0 "[]" g]
    by (simp add: generateOutput_def)
  then show ?thesis
    using i generateOutput_length [of s d g] by (simp del: upt.simps add: nth_map)
qed

lemma generateOutput_fresh:
  "rng_ok g \<Longrightarrow> n \<in> set (fst (generateOutput s d g)) \<Longrightarrow> fresh_note n"
  using generateOutput_loop_fresh [of g "[]" "temperature s" 0]
  by (simp add: generateOutput_def)

lemma generateScale_eval:
  "map time generateScale = map Some [0, 0.25, 0.5, 0.75, 1, 1.25, 1.5, 1.75, 2, 2.25, 2.5, 2.75, 3, 3.25, 3.5, 3.75]"
  by (simp add: generateScale_def scale_def mk_note_def)

lemma generateScale_notes:
  "n \<in> set generateScale \<Longrightarrow> 60 \<le> pitch n \<and> pitch n \<le> 72 \<and> velocity n = 0.8 \<and> duration n = 0.25"
  by (auto simp add: generateScale_def scale_def mk_note_def)

lemma generateChords_eval:
  "map time generateChords = map Some [0, 0, 0, 1, 1, 1, 2, 2, 2, 3, 3, 3]"
  by (simp add: generateChords_def chords_def mk_note_def)

lemma generateChords_notes:
  "n \<in> set generateChords \<Longrightarrow> 60 \<le> pitch n \<and> pitch n \<le> 74 \<and> velocity n = 0.75 \<and> duration n = 1"
  by (auto simp add: generateChords_def chords_def mk_note_def)



lemma sorted_map_upt_quarter: "sorted (map (\<lambda>j. real j * 0.25) [i..<k])"
  by (simp add: sorted_map sorted_wrt_upt del: upt.simps)

section \<open>Generated input sequences\<close>

text \<open>
  Claim C9. For every type string (\<open>random\<close>, \<open>scale\<close>, \<open>chord\<close>, or anything
  else, which is treated as \<open>random\<close>) and every random source within its contract,
  \<open>DataGenerator.generateInput\<close> returns a non-empty list of notes; every note has its
  pitch in \<open>[36, 96]\<close>, its velocity in \<open>[0, 1]\<close> and a positive duration; every
  note has a start time, the start times are non-negative and they are non-decreasing
  along the list.
\<close>

theorem generateInput_wellformed:
  assumes "rng_ok g"
  shows "fst (generateInput ty g) \<noteq> []
    \<and> (\<forall>n\<in>set (fst (generateInput ty g)).
          36 \<le> pitch n \<and> pitch n \<le> 96 \<and> 0 \<le> velocity n \<and> velocity n \<le> 1 \<and> 0 < duration n)
    \<and> (\<exists>ts. map time (fst (generateInput ty g)) = map Some ts \<and> sorted ts \<and> (\<forall>t\<in>set ts. 0 \<le> t))"
proof -
  let ?P = "\<lambda>ns. ns \<noteq> []
    \<and> (\<forall>n\<in>set ns. 36 \<le> pitch n \<and> pitch n \<le> 96 \<and> 0 \<le> velocity n \<and> velocity n \<le> 1 \<and> 0 < duration n)
    \<and> (\<exists>ts. map time ns = map Some ts \<and> sorted ts \<and> (\<forall>t\<in>set ts. 0 \<le> t))"
  have random: "?P (fst (generateRandom g))"
  proof -
    let ?ns = "fst (generateRandom g)"
    let ?ts = "map (\<lambda>j. real j * 0.25) [0..<32]"
    have t: "map time ?ns = map Some ?ts"
      using generateRandom_loop_times [of 0 "[]" g] by (simp add: generateRandom_def del: upt.simps)
    then have "length ?ns = 32"
      by (metis length_map length_upt minus_nat.diff_0)
    then have ne: "?ns \<noteq> []" by auto
    have fr: "\<forall>n\<in>set ?ns. fresh_note n"
      using generateRandom_loop_fresh [OF assms, of "[]" 0] by (simp add: generateRandom_def)
    have s: "sorted ?ts"
      by (rule sorted_map_upt_quarter)
    have p: "\<forall>t\<in>set ?ts. 0 \<le> t" by (auto simp del: upt.simps)
    have e: "\<exists>ts. map time ?ns = map Some ts \<and> sorted ts \<and> (\<forall>t\<in>set ts. 0 \<le> t)"
      using t s p by blast
    have "\<forall>n\<in>set ?ns. 36 \<le> pitch n \<and> pitch n \<le> 96 \<and> 0 \<le> velocity n \<and> velocity n \<le> 1 \<and> 0 < duration n"
      using fr by (auto simp: fresh_note_def)
    with ne e show ?thesis by blast
  qed
  have scale: "?P generateScale"
  proof -
    have "generateScale \<noteq> []" using generateScale_eval by auto
    moreover have "\<forall>n\<in>set generateScale. 36 \<le> pitch n \<and> pitch n \<le> 96 \<and> 0 \<le> velocity n \<and> velocity n \<le> 1 \<and> 0 < duration n"
      using generateScale_notes by fastforce
    moreover have "\<exists>ts. map time generateScale = map Some ts \<and> sorted ts \<and> (\<forall>t\<in>set ts. 0 \<le> t)"
      by (rule exI, rule conjI, rule generateScale_eval) simp
    ultimately show ?thesis by blast
  qed
  have chord: "?P generateChords"
  proof -
    have "generateChords \<noteq> []" using generateChords_eval by auto
    moreover have "\<forall>n\<in>set generateChords. 36 \<le> pitch n \<and> pitch n \<le> 96 \<and> 0 \<le> velocity n \<and> velocity n \<le> 1 \<and> 0 < duration n"
      using generateChords_notes by fastforce
    moreover have "\<exists>ts. map time generateChords = map Some ts \<and> sorted ts \<and> (\<forall>t\<in>set ts. 0 \<le> t)"
      by (rule exI, rule conjI, rule generateChords_eval) simp
    ultimately show ?thesis by blast
  qed
  show ?thesis
    using random scale chord unfolding generateInput_def by (simp del: upt.simps)
qed

theorem generateInput_wellformed_witness:
  "rng_ok zero_rng
   \<and> fst (generateInput ''random'' zero_rng) \<noteq> []
   \<and> 36 \<le> pitch (hd (fst (generateInput ''random'' zero_rng)))
   \<and> pitch (hd (fst (generateInput ''random'' zero_rng))) \<le> 96
   \<and> 0 \<le> velocity (hd (fst (generateInput ''random'' zero_rng)))
   \<and> velocity (hd (fst (generateInput ''random'' zero_rng))) \<le> 1
   \<and> 0 < duration (hd (fst (generateInput ''random'' zero_rng)))
   \<and> (\<exists>ts. map time (fst (generateInput ''random'' zero_rng)) = map Some ts \<and> sorted ts)"
proof -
  have h: "rng_ok zero_rng" by (simp add: rng_ok_def zero_rng_def)
  from generateInput_wellformed [OF h, of "''random''"]
  show ?thesis using h by (auto simp del: generateInput_def)
qed

section \<open>Facts about the application\<close>

lemma getCurrentArch_cases:
  "getCurrentArch s = Some arch \<Longrightarrow>
     layers arch = VAE_layers \<or> layers arch = LSTM_layers
     \<or> layers arch = Transformer_layers \<or> layers arch = Diffusion_layers"
  by (auto simp: getCurrentArch_def architectures_def split: if_splits)

lemma length_preset_layers:
  "length VAE_layers = 7" "length LSTM_layers = 5"
  "length Transformer_layers = 5" "length Diffusion_layers = 7"
  by (simp_all add: VAE_layers_def LSTM_layers_def Transformer_layers_def Diffusion_layers_def)

lemma arch_has_layers: "getCurrentArch s = Some arch \<Longrightarrow> 0 < length (layers arch)"
  using getCurrentArch_cases [of s arch] length_preset_layers by auto

lemma emit_frame [simp]:
  "app (emit e w) = app w" "rnd (emit e w) = rnd w" "pending (emit e w) = pending w"
  "audioPlayer (emit e w) = audioPlayer w" "progressTextElem (emit e w) = progressTextElem w"
  "tensorCanvasSized (emit e w) = tensorCanvasSized w" "layerNodes (emit e w) = layerNodes w"
  "effects (emit e w) = effects w @ [e]"
  by (simp_all add: emit_def)

lemma schedule_frame [simp]:
  "app (schedule t w) = app w" "rnd (schedule t w) = rnd w" "effects (schedule t w) = effects w"
  "audioPlayer (schedule t w) = audioPlayer w" "progressTextElem (schedule t w) = progressTextElem w"
  "tensorCanvasSized (schedule t w) = tensorCanvasSized w"
  "layerNodes (schedule t w) = layerNodes w"
  "pending (schedule t w) = pending w @ [t]"
  by (simp_all add: schedule_def)

lemma generateOutput_and_draw_app:
  "app (generateOutput_and_draw ld w) =
     (app w)\<lparr>outputNotes := fst (generateOutput (app w) (data ld) (rnd w))\<rparr>"
  by (simp add: generateOutput_and_draw_def emit_def case_prod_unfold Let_def)

lemma getCurrentArch_frame [simp]:
  "getCurrentArch (s\<lparr>currentStep := c\<rparr>) = getCurrentArch s"
  "getCurrentArch (s\<lparr>outputNotes := ns\<rparr>) = getCurrentArch s"
  "getCurrentArch (s\<lparr>isAnimating := b\<rparr>) = getCurrentArch s"
  "getCurrentArch (s\<lparr>layerOutputs := los\<rparr>) = getCurrentArch s"
  by (simp_all add: getCurrentArch_def)

lemma generateOutput_and_draw_frame:
  "pending (generateOutput_and_draw ld w) = pending w"
  "length (outputNotes (app (generateOutput_and_draw ld w))) = 32"
  "isAnimating (app (generateOutput_and_draw ld w)) = isAnimating (app w)"
  "isAutoPlaying (app (generateOutput_and_draw ld w)) = isAutoPlaying (app w)"
  "currentStep (app (generateOutput_and_draw ld w)) = currentStep (app w)"
  "layerOutputs (app (generateOutput_and_draw ld w)) = layerOutputs (app w)"
  "getCurrentArch (app (generateOutput_and_draw ld w)) = getCurrentArch (app w)"
  "progressTextElem (generateOutput_and_draw ld w) = progressTextElem w"
  "tensorCanvasSized (generateOutput_and_draw ld w) = tensorCanvasSized w"
  by (simp_all add: generateOutput_and_draw_app generateOutput_length)
     (simp_all add: generateOutput_and_draw_def emit_def case_prod_unfold Let_def)

lemma drawable_cached:
  assumes "outputs_drawable w" "js_index (layerOutputs (app w)) i = Some ld"
  shows "\<not> (tensorCanvasSized w \<and> activation ld = [])"
proof -
  from assms(2) have "ld \<in> set (layerOutputs (app w))"
    by (auto simp: js_index_def split: if_splits)
  with assms(1) show ?thesis by (auto simp: outputs_drawable_def)
qed

lemma updateLayerInfo_returns:
  assumes "getCurrentArch (app w) = Some arch" "0 \<le> i" "i < int (length (layers arch))"
    "\<not> (tensorCanvasSized w \<and> activation ld = [])"
  shows "visualizer_updateLayerInfo ld i w = Inr (emit (UpdateLayerInfo ld i) w)"
  using assms by (auto simp: visualizer_updateLayerInfo_def js_index_def)

lemma updateLayerInfo_world:
  "app (result_world (visualizer_updateLayerInfo ld i w)) = app w"
  "pending (result_world (visualizer_updateLayerInfo ld i w)) = pending w"
  by (simp_all add: visualizer_updateLayerInfo_def result_world_def split: option.splits)

text \<open>\<open>updateStepView\<close> with or without a cached output at the current step.\<close>

lemma updateStepView_ok:
  assumes arch: "getCurrentArch (app w) = Some arch"
    and inr: "currentStep (app w) < int (length (layers arch))"
    and draw: "outputs_drawable w"
  shows "\<exists>w'. updateStepView w = Inr w'
           \<and> isAnimating (app w') = isAnimating (app w)
           \<and> currentStep (app w') = currentStep (app w)
           \<and> layerOutputs (app w') = layerOutputs (app w)
           \<and> pending w' = pending w
           \<and> (length (outputNotes (app w')) = 32 \<or> outputNotes (app w') = outputNotes (app w))
           \<and> (layerOutputs (app w) = [] \<longrightarrow> outputNotes (app w') = outputNotes (app w))"
proof (cases "js_index (layerOutputs (app w)) (currentStep (app w))")
  case None
  then show ?thesis
    using arch
    by (auto simp: updateStepView_def Let_def andThen_def
        visualizer_animateProgress_def visualizer_updateLayerList_def)
next
  case (Some ld)
  let ?w1 = "if progressTextElem w
             then emit (StepDisplay (currentStep (app w)) (length (layers arch))) w else w"
  let ?w2 = "emit (HighlightLayer (currentStep (app w))) ?w1"
  have nonneg: "0 \<le> currentStep (app w)" and ne: "layerOutputs (app w) \<noteq> []"
    using Some by (auto simp: js_index_def split: if_splits)
  have nd: "\<not> (tensorCanvasSized ?w2 \<and> activation ld = [])"
    using drawable_cached [OF draw Some] by simp
  have a2: "getCurrentArch (app ?w2) = Some arch" using arch by simp
  have u: "visualizer_updateLayerInfo ld (currentStep (app w)) ?w2
             = Inr (emit (UpdateLayerInfo ld (currentStep (app w))) ?w2)"
    by (rule updateLayerInfo_returns [OF a2 nonneg inr nd])
  show ?thesis
    using arch Some ne u
    by (auto simp: updateStepView_def Let_def andThen_def
        visualizer_animateProgress_def visualizer_updateLayerList_def
        generateOutput_and_draw_frame)
qed

lemma completeForwardPass_ok:
  assumes arch: "getCurrentArch (app w) = Some arch"
    and draw: "outputs_drawable w"
  shows "\<exists>w'. completeForwardPass w = Inr w'
           \<and> \<not> isAnimating (app w')
           \<and> currentStep (app w') = int (length (layers arch)) - 1
           \<and> isAutoPlaying (app w') = isAutoPlaying (app w)
           \<and> layerOutputs (app w') = layerOutputs (app w)
           \<and> pending w' = pending w
           \<and> last (effects w') = UpdateExplanation (ForwardPassComplete
                (if layerOutputs (app w) = [] then length (outputNotes (app w)) else 32))"
proof -
  define w2 where
    "w2 = (emit HideLoadingAnimation (w\<lparr>app := (app w)\<lparr>isAnimating := False\<rparr>\<rparr>))
            \<lparr>app := (app w)\<lparr>isAnimating := False, currentStep := int (length (layers arch)) - 1\<rparr>\<rparr>"
  define w3 where
    "w3 = (case js_index (layerOutputs (app w2)) (int (length (layerOutputs (app w2))) - 1) of
             Some ld \<Rightarrow> generateOutput_and_draw ld w2 | None \<Rightarrow> w2)"
  have eq: "completeForwardPass w =
              andThen (updateStepView w3)
                (\<lambda>w4. Inr (updateExplanation
                             (ForwardPassComplete (length (outputNotes (app w4)))) w4))"
    using arch unfolding completeForwardPass_def Let_def w3_def w2_def
    by (simp cong: option.case_cong)
  have a3: "getCurrentArch (app w3) = Some arch"
    using arch by (simp add: w3_def w2_def generateOutput_and_draw_frame split: option.splits)
  have c3: "currentStep (app w3) = int (length (layers arch)) - 1"
    by (simp add: w3_def w2_def generateOutput_and_draw_frame split: option.splits)
  have i3: "\<not> isAnimating (app w3)" "isAutoPlaying (app w3) = isAutoPlaying (app w)"
    by (simp_all add: w3_def w2_def generateOutput_and_draw_frame split: option.splits)
  have p3: "pending w3 = pending w"
    by (simp add: w3_def w2_def generateOutput_and_draw_frame split: option.splits)
  have l3: "layerOutputs (app w3) = layerOutputs (app w)"
    by (simp add: w3_def w2_def generateOutput_and_draw_frame split: option.splits)
  have t3: "tensorCanvasSized w3 = tensorCanvasSized w"
    by (simp add: w3_def w2_def generateOutput_and_draw_frame split: option.splits)
  have d3: "outputs_drawable w3"
    using draw l3 t3 by (simp add: outputs_drawable_def)
  have o3: "length (outputNotes (app w3)) =
              (if layerOutputs (app w) = [] then length (outputNotes (app w)) else 32)"
    by (auto simp add: w3_def w2_def generateOutput_and_draw_frame js_index_def
        split: option.splits)
  from updateStepView_ok [OF a3 _ d3] c3
  obtain w4 where w4: "updateStepView w3 = Inr w4"
    "isAnimating (app w4) = isAnimating (app w3)"
    "currentStep (app w4) = currentStep (app w3)"
    "pending w4 = pending w3"
    "length (outputNotes (app w4)) = 32 \<or> outputNotes (app w4) = outputNotes (app w3)"
    "layerOutputs (app w) = [] \<longrightarrow> outputNotes (app w4) = outputNotes (app w3)"
    "layerOutputs (app w4) = layerOutputs (app w3)"
    using l3 by auto
  have au4: "isAutoPlaying (app w4) = isAutoPlaying (app w3)"
    using w4(1) a3
    by (auto simp: updateStepView_def Let_def andThen_def visualizer_updateLayerInfo_def
        visualizer_animateProgress_def visualizer_updateLayerList_def
        generateOutput_and_draw_frame split: option.splits if_splits)
  have len: "length (outputNotes (app w4)) =
              (if layerOutputs (app w) = [] then length (outputNotes (app w)) else 32)"
    using w4(5,6) o3 by (auto split: if_splits)
  have "completeForwardPass w =
          Inr (updateExplanation (ForwardPassComplete (length (outputNotes (app w4)))) w4)"
    using eq w4(1) by (simp add: andThen_def)
  then show ?thesis
    using w4 i3 c3 p3 l3 au4 len by (simp add: updateExplanation_def)
qed

lemma animateDataFlow_returns:
  assumes "getCurrentArch (app w) = Some arch" "step + 1 < length (layers arch)"
  shows "\<exists>w'. engine3D_animateDataFlow step (step + 1) cb d w = Inr w'
      \<and> app w' = app w \<and> tensorCanvasSized w' = tensorCanvasSized w
      \<and> layerNodes w' = layerNodes w \<and> audioPlayer w' = audioPlayer w
      \<and> progressTextElem w' = progressTextElem w
      \<and> effects w' = effects w @ [AnimateDataFlow step (step + 1)]
      \<and> pending w' = pending w @
           (if step + 1 < layerNodes w
            then [Timeout HideTensorPreview (Some 2000), DataFlow step (step + 1) cb d]
            else [Timeout cb (Some d)])"
  using assms by (auto simp: engine3D_animateDataFlow_def Let_def)

lemma animateStep_visit:
  assumes arch: "getCurrentArch (app w) = Some arch"
    and step: "step < length (layers arch)"
    and flag: "isAnimating (app w) \<or> isAutoPlaying (app w)"
    and draw: "outputs_drawable w"
  shows "\<exists>w'. animateStep step w = Inr w'
      \<and> app w' = (app w)\<lparr>currentStep := int step\<rparr>
      \<and> tensorCanvasSized w' = tensorCanvasSized w \<and> layerNodes w' = layerNodes w
      \<and> effects w' =
           effects w @ [HighlightLayer (int step)]
           @ (case js_index (layerOutputs (app w)) (int step) of
                Some ld \<Rightarrow> [UpdateLayerInfo ld (int step)] | None \<Rightarrow> [])
           @ [AnimateProgress (int step) (length (layers arch)),
              UpdateLayerList (layerOutputs (app w))]
           @ (if step + 1 < length (layers arch) \<and> step + 1 < length (layerOutputs (app w))
              then [AnimateDataFlow step (step + 1)] else [])
      \<and> pending w' = pending w @ next_tasks (length (layers arch)) w step"
proof -
  let ?n = "length (layers arch)"
  let ?w1 = "w\<lparr>app := (app w)\<lparr>currentStep := int step\<rparr>\<rparr>"
  let ?w2 = "emit (HighlightLayer (int step)) ?w1"
  let ?ld = "js_index (layerOutputs (app w)) (int step)"
  let ?w3 = "case ?ld of Some ld \<Rightarrow> emit (UpdateLayerInfo ld (int step)) ?w2 | None \<Rightarrow> ?w2"
  let ?w5 = "emit (UpdateLayerList (layerOutputs (app w)))
               (emit (AnimateProgress (int step) ?n) ?w3)"
  have a2: "getCurrentArch (app ?w2) = Some arch" using arch by simp
  have u: "(case ?ld of Some ld \<Rightarrow> visualizer_updateLayerInfo ld (int step) ?w2
            | None \<Rightarrow> Inr ?w2) = Inr ?w3"
  proof (cases ?ld)
    case None
    then show ?thesis by simp
  next
    case (Some ld)
    have "\<not> (tensorCanvasSized ?w2 \<and> activation ld = [])"
      using drawable_cached [OF draw Some] by simp
    from updateLayerInfo_returns [OF a2 _ _ this, of "int step"] step Some
    show ?thesis by simp
  qed
  have a5: "getCurrentArch (app ?w5) = Some arch"
    using arch by (simp split: option.splits)
  have app5: "app ?w5 = (app w)\<lparr>currentStep := int step\<rparr>"
    by (simp split: option.splits)
  have e5: "effects ?w5 = effects w @ [HighlightLayer (int step)]
           @ (case ?ld of Some ld \<Rightarrow> [UpdateLayerInfo ld (int step)] | None \<Rightarrow> [])
           @ [AnimateProgress (int step) ?n, UpdateLayerList (layerOutputs (app w))]"
    by (simp split: option.splits)
  have f5: "pending ?w5 = pending w" "tensorCanvasSized ?w5 = tensorCanvasSized w"
    "layerNodes ?w5 = layerNodes w"
    by (simp_all split: option.splits)
  have mid: "andThen (case ?ld of Some ld \<Rightarrow> visualizer_updateLayerInfo ld (int step) ?w2
                      | None \<Rightarrow> Inr ?w2)
               (\<lambda>w3. andThen (visualizer_animateProgress (int step) ?n w3)
               (\<lambda>w4. andThen (visualizer_updateLayerList (layerOutputs (app w4)) w4) f))
             = f ?w5" for f
    unfolding u using arch
    by (simp add: andThen_def visualizer_animateProgress_def visualizer_updateLayerList_def
        split: option.splits)
  have eq: "animateStep step w =
      (if int step < int ?n - 1 then
         (if int step < int (length (layerOutputs (app w))) - 1 then
            engine3D_animateDataFlow step (step + 1) (AnimateStep (step + 1))
              (1000 / animationSpeed (app w)) ?w5
          else Inr (schedule (Timeout (AnimateStep (step + 1))
                                (Some (1000 / animationSpeed (app w)))) ?w5))
       else Inr (schedule (Timeout (AnimateStep (step + 1)) (Some 500)) ?w5))"
    using arch step flag unfolding animateStep_def Let_def
    by (simp add: mid app5 del: emit_frame)
  show ?thesis
  proof (cases "step + 1 < ?n \<and> step + 1 < length (layerOutputs (app w))")
    case True
    from animateDataFlow_returns [OF a5, of step "AnimateStep (step + 1)"
           "1000 / animationSpeed (app w)"] True
    obtain w' where w': "engine3D_animateDataFlow step (step + 1) (AnimateStep (step + 1))
              (1000 / animationSpeed (app w)) ?w5 = Inr w'"
      "app w' = app ?w5" "tensorCanvasSized w' = tensorCanvasSized ?w5"
      "layerNodes w' = layerNodes ?w5"
      "effects w' = effects ?w5 @ [AnimateDataFlow step (step + 1)]"
      "pending w' = pending ?w5 @
           (if step + 1 < layerNodes ?w5
            then [Timeout HideTensorPreview (Some 2000),
                  DataFlow step (step + 1) (AnimateStep (step + 1)) (1000 / animationSpeed (app w))]
            else [Timeout (AnimateStep (step + 1)) (Some (1000 / animationSpeed (app w)))])"
      by blast
    have "animateStep step w = Inr w'"
      using eq True w'(1) by simp
    then show ?thesis
      using True w'(2-6) app5 e5 f5 by (simp add: next_tasks_def)
  next
    case False
    then show ?thesis
      using eq app5 e5 f5 by (auto simp: next_tasks_def)
  qed
qed


subsection \<open>Tasks and schedules\<close>


lemma carried_simps [simp]:
  "carried [] = []"
  "carried (t # ts) = (case task_step t of None \<Rightarrow> carried ts | Some k \<Rightarrow> k # carried ts)"
  by (simp_all add: carried_def split: option.splits)















section \<open>Step counter\<close>

text \<open>
  Claim C2. For a known architecture, if \<open>0 \<le> currentStep \<le> layers.length - 1\<close> and
  \<open>layerOutputs\<close> is non-empty, then in the state \<open>stepForward\<close> leaves, and in the
  state \<open>stepBack\<close> leaves, \<open>currentStep\<close> is still in that range:
  \<open>stepForward\<close> has added exactly \<open>1\<close> unless \<open>currentStep\<close> was the last
  layer's index, \<open>stepBack\<close> has subtracted exactly \<open>1\<close> unless it was \<open>0\<close>.
  This holds also where the visualizer throws while drawing a cached output, since the
  counter is assigned before the drawing; where the cached outputs can be drawn, as those
  of \<open>processLayer\<close> can, both functions return normally. In any world in which
  \<open>isAnimating\<close> is true both return with the whole world, so all of
  \<open>AppState\<close>, unchanged.
\<close>

theorem step_counter_in_range:
  assumes arch: "getCurrentArch (app w) = Some arch"
    and lo: "0 \<le> currentStep (app w)"
    and hi: "currentStep (app w) \<le> int (length (layers arch)) - 1"
    and outs: "layerOutputs (app w) \<noteq> []"
  shows "0 \<le> currentStep (app (result_world (stepForward w)))
       \<and> currentStep (app (result_world (stepForward w))) \<le> int (length (layers arch)) - 1
       \<and> currentStep (app (result_world (stepForward w))) =
            (if isAnimating (app w) \<or> currentStep (app w) = int (length (layers arch)) - 1
             then currentStep (app w) else currentStep (app w) + 1)
       \<and> 0 \<le> currentStep (app (result_world (stepBack w)))
       \<and> currentStep (app (result_world (stepBack w))) \<le> int (length (layers arch)) - 1
       \<and> currentStep (app (result_world (stepBack w))) =
            (if isAnimating (app w) \<or> currentStep (app w) = 0
             then currentStep (app w) else currentStep (app w) - 1)
       \<and> (outputs_drawable w \<longrightarrow>
            (\<exists>w'. stepForward w = Inr w') \<and> (\<exists>w'. stepBack w = Inr w'))
       \<and> stepForward (v\<lparr>app := (app v)\<lparr>isAnimating := True\<rparr>\<rparr>)
             = Inr (v\<lparr>app := (app v)\<lparr>isAnimating := True\<rparr>\<rparr>)
       \<and> stepBack (v\<lparr>app := (app v)\<lparr>isAnimating := True\<rparr>\<rparr>)
             = Inr (v\<lparr>app := (app v)\<lparr>isAnimating := True\<rparr>\<rparr>)"
proof -
  let ?n = "int (length (layers arch))"
  have fwd: "currentStep (app (result_world (stepForward w))) =
                (if isAnimating (app w) \<or> currentStep (app w) = ?n - 1
                 then currentStep (app w) else currentStep (app w) + 1)"
    using arch lo hi outs
    by (auto simp: stepForward_def Let_def andThen_def result_world_def
        visualizer_updateLayerInfo_def visualizer_animateProgress_def
        visualizer_updateLayerList_def js_index_def generateOutput_and_draw_app
        split: option.splits)
  have bwd: "currentStep (app (result_world (stepBack w))) =
                (if isAnimating (app w) \<or> currentStep (app w) = 0
                 then currentStep (app w) else currentStep (app w) - 1)"
    using arch lo hi outs
    by (auto simp: stepBack_def Let_def andThen_def result_world_def
        visualizer_updateLayerInfo_def visualizer_animateProgress_def
        visualizer_updateLayerList_def js_index_def
        split: option.splits)
  have ret: "outputs_drawable w \<longrightarrow>
            (\<exists>w'. stepForward w = Inr w') \<and> (\<exists>w'. stepBack w = Inr w')"
  proof
    assume draw: "outputs_drawable w"
    have nd: "activation (layerOutputs (app w) ! nat i) \<noteq> []"
      if "tensorCanvasSized w" "0 \<le> i" "i < int (length (layerOutputs (app w)))" for i
      using drawable_cached [OF draw, of i "layerOutputs (app w) ! nat i"] that
      by (simp add: js_index_def)
    have f: "\<exists>w'. stepForward w = Inr w'"
      using arch lo hi outs nd
      by (auto simp: stepForward_def Let_def andThen_def
          visualizer_updateLayerInfo_def visualizer_animateProgress_def
          visualizer_updateLayerList_def js_index_def
          split: option.splits)
    have b: "\<exists>w'. stepBack w = Inr w'"
      using arch lo hi outs nd
      by (auto simp: stepBack_def Let_def andThen_def
          visualizer_updateLayerInfo_def visualizer_animateProgress_def
          visualizer_updateLayerList_def js_index_def
          split: option.splits)
    from f b show "(\<exists>w'. stepForward w = Inr w') \<and> (\<exists>w'. stepBack w = Inr w')" ..
  qed
  have anim: "stepForward (v\<lparr>app := (app v)\<lparr>isAnimating := True\<rparr>\<rparr>)
                = Inr (v\<lparr>app := (app v)\<lparr>isAnimating := True\<rparr>\<rparr>)
              \<and> stepBack (v\<lparr>app := (app v)\<lparr>isAnimating := True\<rparr>\<rparr>)
                = Inr (v\<lparr>app := (app v)\<lparr>isAnimating := True\<rparr>\<rparr>)"
    by (simp add: stepForward_def stepBack_def)
  have frange: "0 \<le> currentStep (app (result_world (stepForward w)))
       \<and> currentStep (app (result_world (stepForward w))) \<le> ?n - 1"
    unfolding fwd using lo hi by auto
  have brange: "0 \<le> currentStep (app (result_world (stepBack w)))
       \<and> currentStep (app (result_world (stepBack w))) \<le> ?n - 1"
    unfolding bwd using lo hi by auto
  from frange fwd brange bwd ret anim show ?thesis by blast
qed

lemma cached_outputs_facts:
  "length cached_outputs = 7" "cached_outputs \<noteq> []"
  "\<forall>out\<in>set cached_outputs. activation out \<noteq> []"
  by (simp_all add: cached_outputs_def length_preset_layers)
     (simp add: VAE_layers_def)

lemma stepping_world_facts:
  "getCurrentArch (app stepping_world)
     = Some \<lparr>arch_name = ''Variational Autoencoder'', layers = VAE_layers\<rparr>"
  "currentStep (app stepping_world) = 1" "\<not> isAnimating (app stepping_world)"
  "layerOutputs (app stepping_world) = cached_outputs"
  "outputs_drawable stepping_world"
  using cached_outputs_facts(3)
  by (simp_all add: stepping_world_def initial_world_def initial_AppState_def
      getCurrentArch_def architectures_def outputs_drawable_def)

theorem step_counter_in_range_witness:
  "getCurrentArch (app stepping_world)
       = Some \<lparr>arch_name = ''Variational Autoencoder'', layers = VAE_layers\<rparr>
   \<and> currentStep (app stepping_world) = 1
   \<and> layerOutputs (app stepping_world) \<noteq> []
   \<and> outputs_drawable stepping_world
   \<and> (\<exists>w'. stepForward stepping_world = Inr w')
   \<and> (\<exists>w'. stepBack stepping_world = Inr w')
   \<and> currentStep (app (result_world (stepForward stepping_world))) = 2
   \<and> currentStep (app (result_world (stepBack stepping_world))) = 0"
proof -
  let ?arch = "\<lparr>arch_name = ''Variational Autoencoder'', layers = VAE_layers\<rparr>"
  have lo: "0 \<le> currentStep (app stepping_world)"
    by (simp add: stepping_world_facts)
  have hi: "currentStep (app stepping_world) \<le> int (length (layers ?arch)) - 1"
    by (simp add: stepping_world_facts length_preset_layers)
  have ne: "layerOutputs (app stepping_world) \<noteq> []"
    by (simp add: stepping_world_facts cached_outputs_facts)
  from step_counter_in_range [OF stepping_world_facts(1) lo hi ne]
  show ?thesis
    using stepping_world_facts ne by (simp add: length_preset_layers)
qed

section \<open>The step animator\<close>




section \<open>Generated output\<close>

text \<open>
  Claim C10, amended. For a random source within its contract and a numeric
  \<open>temperature\<close> (it is \<open>1.0\<close> or the \<open>parseFloat\<close> of a range slider's value),
  \<open>DataGenerator.generateOutput\<close> returns exactly 32 notes; the \<open>i\<close>-th has its pitch
  in \<open>[36, 96]\<close>, start time \<open>i * 0.25\<close>, duration \<open>0.25\<close> and velocity in
  \<open>[0.6, 1]\<close>; the result is the same for every \<open>latentData\<close>. For a known
  architecture whose cached outputs can be drawn (as the outputs of \<open>processLayer\<close>
  can) \<open>completeForwardPass\<close> returns, and its message reports 32 notes whenever at
  least one layer output is cached; with none cached it generates nothing and reports the
  length \<open>outputNotes\<close> has.
\<close>

theorem generateOutput_32_notes:
  assumes ok: "rng_ok g"
    and arch: "getCurrentArch (app w) = Some arch"
    and draw: "outputs_drawable w"
  shows "length (fst (generateOutput s d g)) = 32
    \<and> (\<forall>i<32. 36 \<le> pitch (fst (generateOutput s d g) ! i)
             \<and> pitch (fst (generateOutput s d g) ! i) \<le> 96
             \<and> time (fst (generateOutput s d g) ! i) = Some (of_nat i * 0.25)
             \<and> duration (fst (generateOutput s d g) ! i) = 0.25
             \<and> 0.6 \<le> velocity (fst (generateOutput s d g) ! i)
             \<and> velocity (fst (generateOutput s d g) ! i) \<le> 1)
    \<and> generateOutput s d g = generateOutput s d' g
    \<and> (\<exists>w'. completeForwardPass w = Inr w'
          \<and> last (effects w') = UpdateExplanation (ForwardPassComplete
               (if layerOutputs (app w) = [] then length (outputNotes (app w)) else 32)))"
proof -
  let ?ns = "fst (generateOutput s d g)"
  have len: "length ?ns = 32" by (rule generateOutput_length)
  have each: "\<forall>i<32. 36 \<le> pitch (?ns ! i) \<and> pitch (?ns ! i) \<le> 96
             \<and> time (?ns ! i) = Some (of_nat i * 0.25) \<and> duration (?ns ! i) = 0.25
             \<and> 0.6 \<le> velocity (?ns ! i) \<and> velocity (?ns ! i) \<le> 1"
  proof (intro allI impI)
    fix i :: nat
    assume i: "i < 32"
    then have "?ns ! i \<in> set ?ns" using len by simp
    then have "fresh_note (?ns ! i)" using generateOutput_fresh [OF ok] by blast
    then show "36 \<le> pitch (?ns ! i) \<and> pitch (?ns ! i) \<le> 96
             \<and> time (?ns ! i) = Some (of_nat i * 0.25) \<and> duration (?ns ! i) = 0.25
             \<and> 0.6 \<le> velocity (?ns ! i) \<and> velocity (?ns ! i) \<le> 1"
      using generateOutput_time [OF i, of s d g] by (simp add: fresh_note_def)
  qed
  have indep: "generateOutput s d g = generateOutput s d' g"
    by (simp add: generateOutput_def)
  from completeForwardPass_ok [OF arch draw]
  have msg: "\<exists>w'. completeForwardPass w = Inr w'
          \<and> last (effects w') = UpdateExplanation (ForwardPassComplete
               (if layerOutputs (app w) = [] then length (outputNotes (app w)) else 32))"
    by blast
  from len each indep msg show ?thesis by blast
qed

theorem generateOutput_32_notes_witness:
  "rng_ok zero_rng
   \<and> getCurrentArch (app stepping_world)
       = Some \<lparr>arch_name = ''Variational Autoencoder'', layers = VAE_layers\<rparr>
   \<and> outputs_drawable stepping_world
   \<and> layerOutputs (app stepping_world) \<noteq> []
   \<and> length (fst (generateOutput initial_AppState Null zero_rng)) = 32
   \<and> (\<exists>w'. completeForwardPass stepping_world = Inr w'
          \<and> last (effects w') = UpdateExplanation (ForwardPassComplete 32))"
proof -
  have h: "rng_ok zero_rng" by (simp add: rng_ok_def zero_rng_def)
  have ne: "layerOutputs (app stepping_world) \<noteq> []"
    by (simp add: stepping_world_facts cached_outputs_facts)
  from generateOutput_32_notes
         [OF h stepping_world_facts(1) stepping_world_facts(5), of initial_AppState Null]
  show ?thesis using h stepping_world_facts ne by simp
qed

text \<open>
  Claim C10 as stated, that the completion message always reports 32 notes, fails where no
  layer output is cached (the state after a reset): the message reports \<open>0\<close> notes.
\<close>

theorem completion_message_counterexample:
  "complete_message (completeForwardPass (initial_world zero_rng))
     = UpdateExplanation (ForwardPassComplete 0)"
  by (simp add: complete_message_def result_world_def completeForwardPass_def updateStepView_def
      Let_def andThen_def initial_world_def initial_AppState_def getCurrentArch_def
      architectures_def js_index_def visualizer_animateProgress_def
      visualizer_updateLayerList_def updateExplanation_def emit_def length_preset_layers)
section \<open>Facts about layer processing\<close>

lemma map_rng_length: "length (fst (map_rng f xs g)) = length xs"
  by (induction xs arbitrary: g) (simp_all add: case_prod_unfold Let_def)

lemma map_rng_source:
  "(\<And>x g. source (snd (f x g)) = source g) \<Longrightarrow> source (snd (map_rng f xs g)) = source g"
  by (induction xs arbitrary: g) (simp_all add: case_prod_unfold Let_def)

lemma map_rng_pos:
  "(\<And>x g. pos (snd (f x g)) = pos g + k) \<Longrightarrow>
     pos (snd (map_rng f xs g)) = pos g + k * length xs"
  by (induction xs arbitrary: g) (simp_all add: case_prod_unfold Let_def)

lemma Math_random_frame [simp]:
  "source (snd (Math_random g)) = source g" "pos (snd (Math_random g)) = Suc (pos g)"
  "fst (Math_random g) = source g (pos g)"
  by (simp_all add: Math_random_def)

lemma draws_source [simp]: "source (snd (map_rng (\<lambda>_. Math_random) xs g)) = source g"
  by (rule map_rng_source) simp

lemma draws_pos [simp]: "pos (snd (map_rng (\<lambda>_. Math_random) xs g)) = pos g + length xs"
  using map_rng_pos [of "\<lambda>_. Math_random" 1 xs g] by simp

lemma applyConvolution_ok:
  "applyConvolution (NoteArray ns) i g = Inr (d', g') \<Longrightarrow>
     is_array d' \<and> source g' = source g \<and> pos g' = pos g + 32 * length ns"
  unfolding applyConvolution_def
  by (auto simp: case_prod_unfold Let_def is_array_def
      intro!: map_rng_source trans [OF map_rng_pos [where k = 32]])

lemma applyLSTM_ok:
  "applyLSTM (NoteArray ns) g = Inr (d', g') \<Longrightarrow>
     is_array d' \<and> source g' = source g \<and> pos g' = pos g + 2 * length ns"
  unfolding applyLSTM_def
  by (auto simp: case_prod_unfold Let_def is_array_def
      intro!: map_rng_source trans [OF map_rng_pos [where k = 2]])

lemma applyAttention_ok:
  "applyAttention (NoteArray ns) g = Inr (d', g') \<Longrightarrow>
     is_array d' \<and> source g' = source g \<and> pos g' = pos g + length ns"
  unfolding applyAttention_def
  by (auto simp: case_prod_unfold Let_def is_array_def
      intro!: map_rng_source trans [OF map_rng_pos [where k = 1]])

lemma applyGenericTransform_ok:
  "applyGenericTransform s d i g = (d', g') \<Longrightarrow>
     is_array d' \<and> source g' = source g \<and> pos g' = pos g + 2 * array_length d"
  unfolding applyGenericTransform_def
  by (cases d) (auto simp: case_prod_unfold Let_def is_array_def array_length_def
      intro!: map_rng_source trans [OF map_rng_pos [where k = 2]])

lemma applyTimeEmbedding_ok:
  "applyTimeEmbedding g = (d', g') \<Longrightarrow>
     \<not> is_array d' \<and> source g' = source g \<and> pos g' = pos g + 257"
  unfolding applyTimeEmbedding_def
  by (auto simp: case_prod_unfold Let_def is_array_def)

lemma applyLatentSampling_ok:
  assumes "0 \<le> latentDim s" "latentDim s < 2 ^ 32"
  shows "\<exists>d' g'. applyLatentSampling s d g = Inr (d', g')
     \<and> \<not> is_array d' \<and> source g' = source g \<and> pos g' = pos g + 3 * nat (latentDim s)"
proof -
  let ?f = "\<lambda>(_::real) g0. (source g0 (pos g0) * 2 - 1, snd (Math_random g0))"
  have s: "\<And>xs g. source (snd (map_rng ?f xs g)) = source g"
    by (rule map_rng_source) simp
  have p: "\<And>xs g. pos (snd (map_rng ?f xs g)) = pos g + length xs"
    using map_rng_pos [of ?f 1] by simp
  show ?thesis
    using assms unfolding applyLatentSampling_def js_Array_fill0_def
    by (simp add: case_prod_unfold Let_def is_array_def s p)
qed

lemma generateActivationMap_row_frame:
  "source (snd (generateActivationMap_row l i j row g)) = source g
   \<and> pos (snd (generateActivationMap_row l i j row g)) = pos g + (16 - j)
   \<and> (\<exists>rest. fst (generateActivationMap_row l i j row g) = row @ rest
               \<and> length rest = 16 - j)"
proof (induction l i j row g rule: generateActivationMap_row.induct)
  case (1 l i j row g)
  show ?case
  proof (cases "j < 16")
    case True
    obtain r g1 where a: "Math_random g = (r, g1)" by (cases "Math_random g")
    have g1: "source g1 = source g" "pos g1 = Suc (pos g)"
      using a by (auto simp: Math_random_def)
    from "1.IH" [OF True a [symmetric] refl]
    show ?thesis
      using True a g1
      by (subst (1 2 3) generateActivationMap_row.simps) (auto simp: Suc_diff_Suc)
  next
    case False
    then show ?thesis
      by (subst (1 2 3) generateActivationMap_row.simps) simp
  qed
qed

lemma generateActivationMap_row_first:
  "\<exists>rest. fst (generateActivationMap_row l i 0 [] g) =
     max 0 (min 1 (source g (pos g) * 0.7 + 0.3 * sin (of_nat i * 0.5 + of_nat l))) # rest"
proof -
  let ?v = "max 0 (min 1 (source g (pos g) * 0.7 + 0.3 * sin (of_nat (i + 0) * 0.5 + of_nat l)))"
  have "fst (generateActivationMap_row l i 0 [] g) =
          fst (generateActivationMap_row l i 1 [?v] (snd (Math_random g)))"
    by (subst generateActivationMap_row.simps) (simp add: case_prod_unfold Let_def)
  moreover obtain rest where
    "fst (generateActivationMap_row l i 1 [?v] (snd (Math_random g))) = [?v] @ rest"
    using generateActivationMap_row_frame [of l i 1 "[?v]" "snd (Math_random g)"] by blast
  ultimately show ?thesis by simp
qed

lemma generateActivationMap_rows_frame:
  "source (snd (generateActivationMap_rows l i amap g)) = source g
   \<and> pos (snd (generateActivationMap_rows l i amap g)) = pos g + 16 * (16 - i)
   \<and> (\<exists>rest. fst (generateActivationMap_rows l i amap g) = amap @ rest
               \<and> length rest = 16 - i)"
proof (induction l i amap g rule: generateActivationMap_rows.induct)
  case (1 l i amap g)
  show ?case
  proof (cases "i < 16")
    case True
    obtain row g1 where a: "generateActivationMap_row l i 0 [] g = (row, g1)"
      by (cases "generateActivationMap_row l i 0 [] g")
    have g1: "source g1 = source g" "pos g1 = pos g + 16"
      using generateActivationMap_row_frame [of l i 0 "[]" g] a by simp_all
    from "1.IH" [OF True a [symmetric] refl]
    show ?thesis
      using True a g1
      by (subst (1 2 3) generateActivationMap_rows.simps) (auto simp: Suc_diff_Suc)
  next
    case False
    then show ?thesis
      by (subst (1 2 3) generateActivationMap_rows.simps) simp
  qed
qed

lemma generateActivationMap_frame:
  "source (snd (generateActivationMap l g)) = source g"
  "pos (snd (generateActivationMap l g)) = pos g + 256"
  "length (fst (generateActivationMap l g)) = 16"
  using generateActivationMap_rows_frame [of l 0 "[]" g]
  by (auto simp: generateActivationMap_def)

lemma generateActivationMap_first:
  "hd (hd (fst (generateActivationMap l g))) =
     max 0 (min 1 (source g (pos g) * 0.7 + 0.3 * sin (of_nat l)))"
proof -
  obtain row g1 where a: "generateActivationMap_row l 0 0 [] g = (row, g1)"
    by (cases "generateActivationMap_row l 0 0 [] g")
  have "fst (generateActivationMap l g) = fst (generateActivationMap_rows l 1 [row] g1)"
    unfolding generateActivationMap_def
    by (subst generateActivationMap_rows.simps) (simp add: a)
  moreover obtain rest where "fst (generateActivationMap_rows l 1 [row] g1) = [row] @ rest"
    using generateActivationMap_rows_frame [of l 1 "[row]" g1] by blast
  ultimately have "hd (fst (generateActivationMap l g)) = row" by simp
  moreover obtain rest' where
    "row = max 0 (min 1 (source g (pos g) * 0.7 + 0.3 * sin (of_nat 0 * 0.5 + of_nat l))) # rest'"
    using generateActivationMap_row_first [of l 0 g] a by auto
  ultimately show ?thesis by simp
qed

lemma activation_values_differ:
  fixes x :: real
  assumes "-1 \<le> x" "x \<le> 1"
  shows "max 0 (min 1 (0 * 0.7 + 0.3 * x)) \<noteq> max 0 (min 1 (99 / 100 * 0.7 + 0.3 * x))"
  using assms by (auto simp: max_def min_def)

lemma layer_transform_ok:
  assumes "transform_defined s ty d"
  shows "\<exists>d' g'. layer_transform s ty d i g = Inr (d', g')
     \<and> is_array d' = transform_array_out ty (is_array d)
     \<and> source g' = source g \<and> pos g' = pos g + transform_draws s ty d"
proof -
  consider (input) "ty = ''input''" | (conv) "ty = ''conv'' \<or> ty = ''deconv''"
    | (lstm) "ty = ''lstm''" | (latent) "ty = ''latent''" | (attention) "ty = ''attention''"
    | (time) "ty = ''time''"
    | (other) "ty \<noteq> ''input''" "ty \<noteq> ''conv''" "ty \<noteq> ''deconv''" "ty \<noteq> ''lstm''"
        "ty \<noteq> ''latent''" "ty \<noteq> ''attention''" "ty \<noteq> ''time''"
    by blast
  then show ?thesis
  proof cases
    case input
    then show ?thesis
      by (simp add: layer_transform_def transform_array_out_def transform_draws_def)
  next
    case conv
    then obtain ns where d: "d = NoteArray ns"
      using assms by (cases d) (auto simp: transform_defined_def maps_array_def is_array_def)
    obtain d' g' where r: "applyConvolution (NoteArray ns) i g = Inr (d', g')"
      by (auto simp: applyConvolution_def case_prod_unfold Let_def)
    from applyConvolution_ok [OF r] r conv d show ?thesis
      by (auto simp: layer_transform_def transform_array_out_def transform_draws_def
          array_length_def is_array_def)
  next
    case lstm
    then obtain ns where d: "d = NoteArray ns"
      using assms by (cases d) (auto simp: transform_defined_def maps_array_def is_array_def)
    obtain d' g' where r: "applyLSTM (NoteArray ns) g = Inr (d', g')"
      by (auto simp: applyLSTM_def case_prod_unfold Let_def)
    from applyLSTM_ok [OF r] r lstm d show ?thesis
      by (auto simp: layer_transform_def transform_array_out_def transform_draws_def
          array_length_def is_array_def)
  next
    case latent
    then have "0 \<le> latentDim s" "latentDim s < 2 ^ 32"
      using assms by (auto simp: transform_defined_def)
    from applyLatentSampling_ok [OF this, of d g] latent show ?thesis
      by (auto simp: layer_transform_def transform_array_out_def transform_draws_def)
  next
    case attention
    then obtain ns where d: "d = NoteArray ns"
      using assms by (cases d) (auto simp: transform_defined_def maps_array_def is_array_def)
    obtain d' g' where r: "applyAttention (NoteArray ns) g = Inr (d', g')"
      by (auto simp: applyAttention_def case_prod_unfold Let_def)
    from applyAttention_ok [OF r] r attention d show ?thesis
      by (auto simp: layer_transform_def transform_array_out_def transform_draws_def
          array_length_def is_array_def)
  next
    case time
    obtain d' g' where r: "applyTimeEmbedding g = (d', g')" by (cases "applyTimeEmbedding g")
    from applyTimeEmbedding_ok [OF r] r time show ?thesis
      by (auto simp: layer_transform_def transform_array_out_def transform_draws_def)
  next
    case other
    obtain d' g' where r: "applyGenericTransform s d i g = (d', g')"
      by (cases "applyGenericTransform s d i g")
    from applyGenericTransform_ok [OF r] r other show ?thesis
      by (auto simp: layer_transform_def transform_array_out_def transform_draws_def)
  qed
qed

lemma processLayer_ok:
  assumes arch: "getCurrentArch s = Some arch"
    and i: "i < length (layers arch)"
    and tdef: "transform_defined s (type (layers arch ! i)) d"
  shows "\<exists>out g'. processLayer s i d g = Inr (out, g')
     \<and> layer out = name (layers arch ! i) \<and> ltype out = type (layers arch ! i)
     \<and> is_array (data out) = transform_array_out (type (layers arch ! i)) (is_array d)
     \<and> source g' = source g
     \<and> pos g' = pos g + transform_draws s (type (layers arch ! i)) d + 256
     \<and> length (activation out) = 16
     \<and> hd (hd (activation out)) =
         max 0 (min 1 (source g (pos g + transform_draws s (type (layers arch ! i)) d) * 0.7
                       + 0.3 * sin (of_nat i)))"
proof -
  from layer_transform_ok [OF tdef, of i g]
  obtain d' g1 where t: "layer_transform s (type (layers arch ! i)) d i g = Inr (d', g1)"
    "is_array d' = transform_array_out (type (layers arch ! i)) (is_array d)"
    "source g1 = source g" "pos g1 = pos g + transform_draws s (type (layers arch ! i)) d"
    by blast
  show ?thesis
    using arch i t generateActivationMap_frame [of i g1] generateActivationMap_first [of i g1]
    by (simp add: processLayer_def Let_def case_prod_unfold)
qed

lemma layer_transform_params:
  assumes "latentDim s = latentDim s'" "temperature s = temperature s'"
  shows "layer_transform s ty d i g = layer_transform s' ty d i g"
  using assms
  by (simp add: layer_transform_def applyLatentSampling_def applyGenericTransform_def)

lemma processLayer_params:
  assumes "currentArchitecture s = currentArchitecture s'" "latentDim s = latentDim s'"
    "temperature s = temperature s'"
  shows "processLayer s i d g = processLayer s' i d g"
proof -
  have lt: "layer_transform s = layer_transform s'"
    by (intro ext layer_transform_params assms)
  show ?thesis
    unfolding processLayer_def getCurrentArch_def lt assms(1) ..
qed

lemma flow_ok_presets:
  assumes "0 \<le> latentDim s" "latentDim s < 2 ^ 32"
  shows "flow_ok s (map type VAE_layers) True" "flow_ok s (map type LSTM_layers) True"
    "flow_ok s (map type Transformer_layers) True" "flow_ok s (map type Diffusion_layers) True"
  using assms
  by (simp_all add: VAE_layers_def LSTM_layers_def Transformer_layers_def Diffusion_layers_def
      mk_layer_def maps_array_def transform_array_out_def)

lemma layers_forEach_chain:
  assumes arch: "getCurrentArch s0 = Some arch"
    and same: "currentArchitecture (app w) = currentArchitecture s0"
      "latentDim (app w) = latentDim s0" "temperature (app w) = temperature s0"
    and seg: "\<forall>j<length ls. index + j < length (layers arch) \<and> layers arch ! (index + j) = ls ! j"
    and flow: "flow_ok s0 (map type ls) (is_array d)"
  shows "\<exists>w1 outs gs. layers_forEach ls index d w = Inr w1
      \<and> app w1 = (app w)\<lparr>layerOutputs := layerOutputs (app w) @ outs\<rparr>
      \<and> effects w1 = effects w \<and> pending w1 = pending w
      \<and> audioPlayer w1 = audioPlayer w \<and> progressTextElem w1 = progressTextElem w
      \<and> length outs = length ls \<and> length gs = Suc (length ls)
      \<and> gs ! 0 = rnd w \<and> gs ! length ls = rnd w1
      \<and> (ls \<noteq> [] \<longrightarrow> is_array (data (last outs)) = array_after (map type ls) (is_array d))
      \<and> (\<forall>j<length ls.
            processLayer s0 (index + j) (if j = 0 then d else data (outs ! (j - 1))) (gs ! j)
              = Inr (outs ! j, gs ! Suc j))"
  using same seg flow
proof (induction ls arbitrary: index d w)
  case Nil
  show ?case
    by (rule exI [of _ w], rule exI [of _ "[]"], rule exI [of _ "[rnd w]"]) simp
next
  case (Cons l ls)
  from Cons.prems(4)
  have idx: "index < length (layers arch)" "layers arch ! index = l"
    by auto
  have seg': "\<forall>j<length ls. index + 1 + j < length (layers arch)
                \<and> layers arch ! (index + 1 + j) = ls ! j"
  proof (intro allI impI)
    fix j assume "j < length ls"
    then have "Suc j < length (l # ls)" by simp
    with Cons.prems(4) have "index + Suc j < length (layers arch)
        \<and> layers arch ! (index + Suc j) = (l # ls) ! Suc j"
      by blast
    then show "index + 1 + j < length (layers arch) \<and> layers arch ! (index + 1 + j) = ls ! j"
      by simp
  qed
  have tdef: "transform_defined s0 (type (layers arch ! index)) d"
    using Cons.prems(5) idx(2) by (simp add: transform_defined_def)
  from processLayer_ok [OF arch idx(1) tdef, of "rnd w"]
  obtain out g' where p: "processLayer s0 index d (rnd w) = Inr (out, g')"
    "is_array (data out) = transform_array_out (type l) (is_array d)"
    using idx(2) by auto
  have p': "processLayer (app w) index d (rnd w) = Inr (out, g')"
    using p(1) processLayer_params [OF Cons.prems(1-3)] by simp
  let ?w' = "w\<lparr>app := (app w)\<lparr>layerOutputs := layerOutputs (app w) @ [out]\<rparr>, rnd := g'\<rparr>"
  have step: "layers_forEach (l # ls) index d w = layers_forEach ls (index + 1) (data out) ?w'"
    using p' by simp
  have flow': "flow_ok s0 (map type ls) (is_array (data out))"
    using Cons.prems(5) p(2) by simp
  have same': "currentArchitecture (app ?w') = currentArchitecture s0"
    "latentDim (app ?w') = latentDim s0" "temperature (app ?w') = temperature s0"
    using Cons.prems(1-3) by simp_all
  from Cons.IH [OF same' seg' flow']
  obtain w1 outs gs where ih: "layers_forEach ls (index + 1) (data out) ?w' = Inr w1"
    "app w1 = (app ?w')\<lparr>layerOutputs := layerOutputs (app ?w') @ outs\<rparr>"
    "effects w1 = effects ?w'" "pending w1 = pending ?w'"
    "audioPlayer w1 = audioPlayer ?w'" "progressTextElem w1 = progressTextElem ?w'"
    "length outs = length ls" "length gs = Suc (length ls)"
    "gs ! 0 = rnd ?w'" "gs ! length ls = rnd w1"
    "ls \<noteq> [] \<longrightarrow> is_array (data (last outs)) = array_after (map type ls) (is_array (data out))"
    "\<forall>j<length ls.
        processLayer s0 (index + 1 + j) (if j = 0 then data out else data (outs ! (j - 1))) (gs ! j)
          = Inr (outs ! j, gs ! Suc j)"
    by auto
  let ?outs = "out # outs"
  let ?gs = "rnd w # gs"
  have chain: "\<forall>j<length (l # ls).
        processLayer s0 (index + j) (if j = 0 then d else data (?outs ! (j - 1))) (?gs ! j)
          = Inr (?outs ! j, ?gs ! Suc j)"
  proof (intro allI impI)
    fix j
    assume j: "j < length (l # ls)"
    show "processLayer s0 (index + j) (if j = 0 then d else data (?outs ! (j - 1))) (?gs ! j)
          = Inr (?outs ! j, ?gs ! Suc j)"
    proof (cases j)
      case 0
      then show ?thesis using p(1) ih(9) by simp
    next
      case (Suc j')
      then have j': "j' < length ls" using j by simp
      have "(if j' = 0 then data out else data (outs ! (j' - 1))) = data (?outs ! j')"
        by (cases j') simp_all
      then show ?thesis
        using ih(12) j' Suc by auto
    qed
  qed
  have lastarr: "is_array (data (last ?outs)) = array_after (map type (l # ls)) (is_array d)"
  proof (cases ls)
    case Nil
    then show ?thesis using ih(7) p(2) by simp
  next
    case (Cons a list)
    then have "outs \<noteq> []" using ih(7) by auto
    then show ?thesis using ih(11) Cons p(2) by simp
  qed
  show ?case
    apply (rule exI [of _ w1], rule exI [of _ ?outs], rule exI [of _ ?gs])
    using step ih(1-10) chain lastarr by simp
qed

lemma layers_forEach_append:
  "xs \<noteq> [] \<Longrightarrow>
   layers_forEach (xs @ ys) index d w =
     (case layers_forEach xs index d w of
        Inl e \<Rightarrow> Inl e
      | Inr w1 \<Rightarrow>
          layers_forEach ys (index + length xs) (data (last (layerOutputs (app w1)))) w1)"
proof (induction xs arbitrary: index d w)
  case Nil
  then show ?case by simp
next
  case (Cons x xs)
  show ?case
  proof (cases "processLayer (app w) index d (rnd w)")
    case (Inl e)
    then show ?thesis by simp
  next
    case (Inr r)
    obtain out g' where r: "r = (out, g')" by (cases r)
    show ?thesis
    proof (cases "xs = []")
      case True
      then show ?thesis using Inr r by simp
    next
      case False
      from Cons.IH [OF False] show ?thesis using Inr r by (simp split: sum.splits)
    qed
  qed
qed

lemma processLayer_latent_RangeError:
  assumes "getCurrentArch s = Some arch" "i < length (layers arch)"
    "type (layers arch ! i) = ''latent''" "latentDim s < 0"
  shows "processLayer s i d g = Inl RangeError"
  using assms
  by (simp add: processLayer_def layer_transform_def applyLatentSampling_def js_Array_fill0_def)

lemma layers_forEach_fails:
  "layers_forEach ls index d w = Inl (e, w') \<Longrightarrow>
     effects w' = effects w \<and> pending w' = pending w
     \<and> isAnimating (app w') = isAnimating (app w)"
proof (induction ls arbitrary: index d w)
  case Nil
  then show ?case by simp
next
  case (Cons l ls)
  show ?case
  proof (cases "processLayer (app w) index d (rnd w)")
    case (Inl e')
    then show ?thesis using Cons.prems by simp
  next
    case (Inr r)
    obtain out g' where r: "r = (out, g')" by (cases r)
    from Cons.prems Inr r
    have "layers_forEach ls (index + 1) (data out)
            (w\<lparr>app := (app w)\<lparr>layerOutputs := layerOutputs (app w) @ [out]\<rparr>, rnd := g'\<rparr>)
          = Inl (e, w')"
      by simp
    from Cons.IH [OF this] show ?thesis by simp
  qed
qed

section \<open>Layer processing is random\<close>

text \<open>
  Claim C3, amended. \<open>processLayer\<close> is not a function of \<open>(layerIndex, inputData)\<close>:
  wherever it returns (a known architecture, an index within its layers, a transform that
  runs without an exception), the random source that always gives \<open>0\<close> and the one that
  always gives \<open>0.99\<close> lead to different activation maps. Every returned output has a
  fresh activation map of 16 rows, for which 256 numbers are drawn after those of the
  transform. The transform draws \<open>transform_draws\<close> numbers: none for an \<open>input\<close>
  layer, a positive number per note for the transforms that map over a note array, three
  per latent dimension, 257 for the time embedding, and none when the generic transform
  gets a value that is not an array.
\<close>

theorem processLayer_not_deterministic:
  assumes arch: "getCurrentArch s = Some arch"
    and i: "i < length (layers arch)"
    and tdef: "transform_defined s (type (layers arch ! i)) d"
  shows "(\<exists>o1 h1 o2 h2.
            processLayer s i d (g\<lparr>source := \<lambda>_. 0\<rparr>) = Inr (o1, h1)
          \<and> processLayer s i d (g\<lparr>source := \<lambda>_. 99 / 100\<rparr>) = Inr (o2, h2)
          \<and> activation o1 \<noteq> activation o2)
       \<and> (\<exists>out g'. processLayer s i d g = Inr (out, g')
          \<and> length (activation out) = 16
          \<and> source g' = source g
          \<and> pos g' = pos g + transform_draws s (type (layers arch ! i)) d + 256)"
proof -
  let ?k = "transform_draws s (type (layers arch ! i)) d"
  from processLayer_ok [OF arch i tdef, of "g\<lparr>source := \<lambda>_. 0\<rparr>"]
  obtain o1 h1 where r1: "processLayer s i d (g\<lparr>source := \<lambda>_. 0\<rparr>) = Inr (o1, h1)"
    "hd (hd (activation o1)) = max 0 (min 1 (0 * 0.7 + 0.3 * sin (of_nat i)))"
    by auto
  from processLayer_ok [OF arch i tdef, of "g\<lparr>source := \<lambda>_. 99 / 100\<rparr>"]
  obtain o2 h2 where r2: "processLayer s i d (g\<lparr>source := \<lambda>_. 99 / 100\<rparr>) = Inr (o2, h2)"
    "hd (hd (activation o2)) = max 0 (min 1 (99 / 100 * 0.7 + 0.3 * sin (of_nat i)))"
    by auto
  have "hd (hd (activation o1)) \<noteq> hd (hd (activation o2))"
    unfolding r1(2) r2(2)
    by (rule activation_values_differ) simp_all
  then have ne: "activation o1 \<noteq> activation o2" by auto
  from processLayer_ok [OF arch i tdef, of g]
  have "\<exists>out g'. processLayer s i d g = Inr (out, g')
          \<and> length (activation out) = 16 \<and> source g' = source g \<and> pos g' = pos g + ?k + 256"
    by blast
  with r1(1) r2(1) ne show ?thesis by blast
qed

theorem processLayer_not_deterministic_witness:
  "getCurrentArch initial_AppState
       = Some \<lparr>arch_name = ''Variational Autoencoder'', layers = VAE_layers\<rparr>
   \<and> transform_defined initial_AppState ''conv'' (NoteArray [mk_note 60 0 0.25 0.8])
   \<and> (\<exists>out g'. processLayer initial_AppState 1 (NoteArray [mk_note 60 0 0.25 0.8]) zero_rng
                  = Inr (out, g')
          \<and> length (activation out) = 16 \<and> pos g' = 288)"
proof -
  let ?arch = "\<lparr>arch_name = ''Variational Autoencoder'', layers = VAE_layers\<rparr>"
  have a: "getCurrentArch initial_AppState = Some ?arch"
    by (simp add: initial_AppState_def getCurrentArch_def architectures_def)
  have i: "1 < length (layers ?arch)" by (simp add: length_preset_layers)
  have ty: "type (layers ?arch ! 1) = ''conv''" by (simp add: VAE_layers_def mk_layer_def)
  have t: "transform_defined initial_AppState (type (layers ?arch ! 1)) (NoteArray [mk_note 60 0 0.25 0.8])"
    unfolding ty by (simp add: transform_defined_def is_array_def)
  have k: "transform_draws initial_AppState ''conv'' (NoteArray [mk_note 60 0 0.25 0.8]) = 32"
    by (simp add: transform_draws_def array_length_def)
  from processLayer_not_deterministic [OF a i t, of zero_rng]
  show ?thesis
    using a t unfolding ty k by (auto simp: zero_rng_def)
qed

text \<open>
  Claim C3 as stated, that every transform of a layer other than \<open>input\<close> draws from
  the random source, fails at the \<open>dense\<close> layer of the VAE, whose input is the latent
  sample: the generic transform returns the default array and leaves the random source
  where it was.
\<close>

theorem dense_transform_draws_nothing_counterexample:
  "type (VAE_layers ! 4) = ''dense''
   \<and> layer_transform initial_AppState ''dense'' (LatentSample [0] [1] [0]) 4 zero_rng
       = Inr (NoteArray default_array, zero_rng)"
  by (simp add: VAE_layers_def mk_layer_def layer_transform_def applyGenericTransform_def)

section \<open>Facts about the forward pass\<close>

lemma getCurrentArch_VAE:
  "getCurrentArch s = Some arch \<Longrightarrow>
     (currentArchitecture s = ''VAE'' \<and> layers arch = VAE_layers)
     \<or> (currentArchitecture s \<noteq> ''VAE'' \<and>
          (layers arch = LSTM_layers \<or> layers arch = Transformer_layers
           \<or> layers arch = Diffusion_layers))"
  by (auto simp: getCurrentArch_def architectures_def split: if_splits)

lemma flow_ok_no_latent:
  "flow_ok s (map type LSTM_layers) True" "flow_ok s (map type Transformer_layers) True"
  "flow_ok s (map type Diffusion_layers) True"
  by (simp_all add: LSTM_layers_def Transformer_layers_def Diffusion_layers_def
      mk_layer_def maps_array_def transform_array_out_def)

lemma flow_ok_current:
  assumes arch: "getCurrentArch s = Some arch"
    and lat: "currentArchitecture s = ''VAE'' \<longrightarrow> 0 \<le> latentDim s \<and> latentDim s < 2 ^ 32"
  shows "flow_ok s (map type (layers arch)) True"
  using getCurrentArch_VAE [OF arch] lat flow_ok_presets(1) [of s] flow_ok_no_latent [of s]
  by auto

lemma runForwardPass_begin_frame:
  "app (runForwardPass_begin w) =
     (app w)\<lparr>currentStep := 0, layerOutputs := [], outputNotes := [], isAnimating := True\<rparr>"
  "rnd (runForwardPass_begin w) = rnd w"
  "effects (runForwardPass_begin w) = effects w @ [ShowLoadingAnimation]"
  "pending (runForwardPass_begin w) = pending w"
  by (simp_all add: runForwardPass_begin_def reset_def Let_def)

lemma ready_world_facts:
  "inputData (app ready_world) = Some one_note_input" "one_note_input \<noteq> []"
  "\<not> isAnimating (app ready_world)" "latentDim (app ready_world) = 128"
  "getCurrentArch (app ready_world)
     = Some \<lparr>arch_name = ''Variational Autoencoder'', layers = VAE_layers\<rparr>"
  "effects ready_world = []" "pending ready_world = []"
  by (simp_all add: ready_world_def initial_world_def initial_AppState_def one_note_input_def
      getCurrentArch_def architectures_def)

lemma processLayer_activation:
  "processLayer s i d g = Inr (out, g') \<Longrightarrow> length (activation out) = 16"
  using generateActivationMap_frame(3) [of i]
  by (auto simp: processLayer_def Let_def case_prod_unfold split: option.splits if_splits sum.splits)

lemma outputs_drawable_begin: "outputs_drawable (runForwardPass_begin w)"
  by (simp add: outputs_drawable_def runForwardPass_begin_def reset_def Let_def)

lemma layers_forEach_returns:
  "layers_forEach ls index d w = Inr w1 \<Longrightarrow>
     effects w1 = effects w \<and> pending w1 = pending w
     \<and> isAnimating (app w1) = isAnimating (app w)
     \<and> getCurrentArch (app w1) = getCurrentArch (app w)
     \<and> (outputs_drawable w \<longrightarrow> outputs_drawable w1)"
proof (induction ls arbitrary: index d w)
  case Nil
  then show ?case by simp
next
  case (Cons l ls)
  show ?case
  proof (cases "processLayer (app w) index d (rnd w)")
    case (Inl e')
    then show ?thesis using Cons.prems by simp
  next
    case (Inr r)
    obtain out g' where r: "r = (out, g')" by (cases r)
    from Cons.prems Inr r
    have fe: "layers_forEach ls (index + 1) (data out)
            (w\<lparr>app := (app w)\<lparr>layerOutputs := layerOutputs (app w) @ [out]\<rparr>, rnd := g'\<rparr>)
          = Inr w1"
      by simp
    have "length (activation out) = 16"
      using processLayer_activation [of "app w" index d "rnd w" out g'] Inr r by simp
    then have "outputs_drawable w \<longrightarrow>
            outputs_drawable
              (w\<lparr>app := (app w)\<lparr>layerOutputs := layerOutputs (app w) @ [out]\<rparr>, rnd := g'\<rparr>)"
      by (auto simp: outputs_drawable_def)
    with Cons.IH [OF fe] show ?thesis by simp
  qed
qed

lemma processAllLayers_fails:
  assumes fail: "processAllLayers w = Inl (e, w')"
    and anim: "isAnimating (app w)"
    and draw: "outputs_drawable w"
  shows "effects w' = effects w \<and> pending w' = pending w"
proof (cases "getCurrentArch (app w)")
  case None
  then show ?thesis using fail by (simp add: processAllLayers_def)
next
  case (Some arch)
  show ?thesis
  proof (cases "layers_forEach (layers arch) 0 (input_data (app w)) w")
    case (Inl x)
    then have "layers_forEach (layers arch) 0 (input_data (app w)) w = Inl (e, w')"
      using fail Some by (simp add: processAllLayers_def andThen_def)
    from layers_forEach_fails [OF this] show ?thesis by simp
  next
    case (Inr w1)
    from layers_forEach_returns [OF Inr] Some anim draw
    have a1: "getCurrentArch (app w1) = Some arch"
      and f1: "isAnimating (app w1) \<or> isAutoPlaying (app w1)"
      and d1: "outputs_drawable w1"
      by simp_all
    from animateStep_visit [OF a1 arch_has_layers [OF Some] f1 d1]
    obtain w2 where "animateStep 0 w1 = Inr w2" by blast
    then show ?thesis
      using fail Some Inr by (simp add: processAllLayers_def andThen_def)
  qed
qed

lemma unknown_arch_world_facts:
  "\<not> no_input (app unknown_arch_world)" "\<not> isAnimating (app unknown_arch_world)"
  "getCurrentArch (app unknown_arch_world) = None"
  "effects unknown_arch_world = []" "pending unknown_arch_world = []"
  by (simp_all add: unknown_arch_world_def ready_world_def initial_world_def
      initial_AppState_def one_note_input_def no_input_def getCurrentArch_def architectures_def)

lemma unknown_arch_fails:
  "processAllLayers (runForwardPass_begin unknown_arch_world)
     = Inl (TypeError, runForwardPass_begin unknown_arch_world)"
  using unknown_arch_world_facts(3)
  by (simp add: processAllLayers_def runForwardPass_begin_frame getCurrentArch_def)

lemma busy_world_facts:
  "\<not> no_input (app busy_world)" "isAnimating (app busy_world)"
  "getCurrentArch (app busy_world)
     = Some \<lparr>arch_name = ''Variational Autoencoder'', layers = VAE_layers\<rparr>"
  "layerOutputs (app busy_world) = []"
  by (simp_all add: busy_world_def ready_world_def initial_world_def initial_AppState_def
      one_note_input_def no_input_def getCurrentArch_def architectures_def)

lemma bad_latent_world_facts:
  "\<not> no_input (app bad_latent_world)" "\<not> isAnimating (app bad_latent_world)"
  "getCurrentArch (app bad_latent_world)
     = Some \<lparr>arch_name = ''Variational Autoencoder'', layers = VAE_layers\<rparr>"
  "latentDim (app bad_latent_world) = - 1"
  "inputData (app bad_latent_world) = Some one_note_input"
  by (simp_all add: bad_latent_world_def ready_world_def initial_world_def initial_AppState_def
      one_note_input_def no_input_def getCurrentArch_def architectures_def)

lemma bad_latent_forEach:
  "\<exists>w1. layers_forEach VAE_layers 0 (NoteArray one_note_input)
            (runForwardPass_begin bad_latent_world) = Inl (RangeError, w1)
        \<and> length (layerOutputs (app w1)) = 3"
proof -
  let ?arch = "\<lparr>arch_name = ''Variational Autoencoder'', layers = VAE_layers\<rparr>"
  let ?b = "runForwardPass_begin bad_latent_world"
  let ?s0 = "app bad_latent_world"
  have arch: "getCurrentArch ?s0 = Some ?arch" by (rule bad_latent_world_facts)
  have same: "currentArchitecture (app ?b) = currentArchitecture ?s0"
    "latentDim (app ?b) = latentDim ?s0" "temperature (app ?b) = temperature ?s0"
    by (simp_all add: runForwardPass_begin_frame)
  have split: "VAE_layers = take 3 VAE_layers @ drop 3 VAE_layers" by simp
  have t3: "take 3 VAE_layers \<noteq> []" "length (take 3 VAE_layers) = 3"
    by (simp_all add: VAE_layers_def)
  have seg: "\<forall>j<length (take 3 VAE_layers). 0 + j < length (layers ?arch)
               \<and> layers ?arch ! (0 + j) = take 3 VAE_layers ! j"
    by (simp add: length_preset_layers)
  have flow: "flow_ok ?s0 (map type (take 3 VAE_layers)) (is_array (NoteArray one_note_input))"
    by (simp add: VAE_layers_def mk_layer_def maps_array_def transform_array_out_def is_array_def)
  from layers_forEach_chain [OF arch same seg flow]
  obtain w1 outs where c:
    "layers_forEach (take 3 VAE_layers) 0 (NoteArray one_note_input) ?b = Inr w1"
    "app w1 = (app ?b)\<lparr>layerOutputs := layerOutputs (app ?b) @ outs\<rparr>"
    "length outs = length (take 3 VAE_layers)"
    by blast
  have lo: "length (layerOutputs (app w1)) = 3"
    using c(2,3) t3(2) by (simp add: runForwardPass_begin_frame)
  have a1: "getCurrentArch (app w1) = Some ?arch"
    using c(2) arch by (simp add: runForwardPass_begin_frame getCurrentArch_def)
  have l1: "latentDim (app w1) < 0"
    using c(2) by (simp add: runForwardPass_begin_frame bad_latent_world_facts)
  have ty: "type (layers ?arch ! 3) = ''latent''" by (simp add: VAE_layers_def mk_layer_def)
  have i3: "3 < length (layers ?arch)" by (simp add: length_preset_layers)
  have d3: "drop 3 VAE_layers = VAE_layers ! 3 # drop 4 VAE_layers"
    by (simp add: VAE_layers_def)
  have fail: "layers_forEach (drop 3 VAE_layers) 3 d w1 = Inl (RangeError, w1)" for d
    unfolding d3 using processLayer_latent_RangeError [OF a1 i3 ty l1] by simp
  have "layers_forEach (take 3 VAE_layers @ drop 3 VAE_layers) 0 (NoteArray one_note_input) ?b
          = layers_forEach (drop 3 VAE_layers) (0 + length (take 3 VAE_layers))
              (data (last (layerOutputs (app w1)))) w1"
    unfolding layers_forEach_append [OF t3(1)] c(1) by simp
  also have "\<dots> = Inl (RangeError, w1)"
    unfolding t3(2) using fail by simp
  finally have "layers_forEach VAE_layers 0 (NoteArray one_note_input) ?b = Inl (RangeError, w1)"
    by simp
  then show ?thesis using lo by auto
qed

section \<open>The forward pass precomputes the layer outputs\<close>

text \<open>
  Claim C1, amended. For every non-empty \<open>inputData\<close> and each of the four architectures,
  when no animation is in progress (and, for the VAE, \<open>latentDim\<close> is an array length),
  \<open>runForwardPass\<close> empties \<open>layerOutputs\<close> and its loop over the layers returns
  with exactly one output per layer in \<open>layerOutputs\<close>; only then \<open>animateStep(0)\<close>
  runs, and it leaves the outputs as they are. The outputs are chained: with the random
  source threaded through, entry \<open>0\<close> is \<open>processLayer(0, inputData)\<close> and entry
  \<open>i\<close> is \<open>processLayer(i, data of entry i - 1)\<close>.
\<close>

theorem runForwardPass_precomputes_outputs:
  assumes inp: "inputData (app w) = Some ns" "ns \<noteq> []"
    and idle: "\<not> isAnimating (app w)"
    and arch: "getCurrentArch (app w) = Some arch"
    and lat: "currentArchitecture (app w) = ''VAE'' \<longrightarrow>
                0 \<le> latentDim (app w) \<and> latentDim (app w) < 2 ^ 32"
  shows "\<exists>w1 w' gs.
        layers_forEach (layers arch) 0 (NoteArray ns) (runForwardPass_begin w) = Inr w1
      \<and> animateStep 0 w1 = Inr w'
      \<and> runForwardPass w = w'
      \<and> length (layerOutputs (app w1)) = length (layers arch)
      \<and> layerOutputs (app w') = layerOutputs (app w1)
      \<and> length gs = Suc (length (layers arch)) \<and> gs ! 0 = rnd w
      \<and> (\<forall>i<length (layers arch).
            processLayer (app w) i
              (if i = 0 then NoteArray ns else data (layerOutputs (app w1) ! (i - 1))) (gs ! i)
            = Inr (layerOutputs (app w1) ! i, gs ! Suc i))"
proof -
  let ?b = "runForwardPass_begin w"
  have same: "currentArchitecture (app ?b) = currentArchitecture (app w)"
    "latentDim (app ?b) = latentDim (app w)" "temperature (app ?b) = temperature (app w)"
    by (simp_all add: runForwardPass_begin_frame)
  have seg: "\<forall>j<length (layers arch). 0 + j < length (layers arch)
               \<and> layers arch ! (0 + j) = layers arch ! j"
    by simp
  have flow: "flow_ok (app w) (map type (layers arch)) (is_array (NoteArray ns))"
    using flow_ok_current [OF arch lat] by (simp add: is_array_def)
  from layers_forEach_chain [OF arch same seg flow]
  obtain w1 outs gs where c:
    "layers_forEach (layers arch) 0 (NoteArray ns) ?b = Inr w1"
    "app w1 = (app ?b)\<lparr>layerOutputs := layerOutputs (app ?b) @ outs\<rparr>"
    "length outs = length (layers arch)" "length gs = Suc (length (layers arch))"
    "gs ! 0 = rnd ?b"
    "\<forall>j<length (layers arch).
        processLayer (app w) (0 + j) (if j = 0 then NoteArray ns else data (outs ! (j - 1))) (gs ! j)
          = Inr (outs ! j, gs ! Suc j)"
    by blast
  have lo: "layerOutputs (app w1) = outs"
    using c(2) by (simp add: runForwardPass_begin_frame)
  have a1: "getCurrentArch (app w1) = Some arch"
    using c(2) arch by (simp add: runForwardPass_begin_frame getCurrentArch_def)
  have an1: "isAnimating (app w1) \<or> isAutoPlaying (app w1)"
    using c(2) by (simp add: runForwardPass_begin_frame)
  have pos: "0 < length (layers arch)" by (rule arch_has_layers [OF arch])
  have d1: "outputs_drawable w1"
    using layers_forEach_returns [OF c(1)] outputs_drawable_begin [of w] by simp
  from animateStep_visit [OF a1 pos an1 d1]
  obtain w' where w': "animateStep 0 w1 = Inr w'" "app w' = (app w1)\<lparr>currentStep := int 0\<rparr>"
    by blast
  have ab: "getCurrentArch (app ?b) = Some arch"
    using arch by (simp add: runForwardPass_begin_frame getCurrentArch_def)
  have idb: "input_data (app ?b) = NoteArray ns"
    using inp(1) by (simp add: input_data_def runForwardPass_begin_frame)
  have pal: "processAllLayers ?b = Inr w'"
    using ab idb c(1) w'(1) by (simp add: processAllLayers_def andThen_def)
  have ni: "\<not> no_input (app w)" using inp by (simp add: no_input_def)
  have run: "runForwardPass w = w'"
    using ni idle pal by (simp add: runForwardPass_def)
  have chain: "\<forall>i<length (layers arch).
            processLayer (app w) i
              (if i = 0 then NoteArray ns else data (layerOutputs (app w1) ! (i - 1))) (gs ! i)
            = Inr (layerOutputs (app w1) ! i, gs ! Suc i)"
    using c(6) unfolding lo by (simp only: add_0)
  have keep: "layerOutputs (app w') = layerOutputs (app w1)" using w'(2) by simp
  have len: "length (layerOutputs (app w1)) = length (layers arch)" using lo c(3) by simp
  have g0: "gs ! 0 = rnd w" using c(5) by (simp add: runForwardPass_begin_frame)
  from c(1) w'(1) run len keep c(4) g0 chain show ?thesis by blast
qed

theorem runForwardPass_precomputes_outputs_witness:
  "inputData (app ready_world) = Some one_note_input
   \<and> one_note_input \<noteq> []
   \<and> \<not> isAnimating (app ready_world)
   \<and> getCurrentArch (app ready_world)
        = Some \<lparr>arch_name = ''Variational Autoencoder'', layers = VAE_layers\<rparr>
   \<and> latentDim (app ready_world) = 128
   \<and> length (layerOutputs (app (runForwardPass ready_world))) = 7"
proof -
  have lat: "currentArchitecture (app ready_world) = ''VAE'' \<longrightarrow>
               0 \<le> latentDim (app ready_world) \<and> latentDim (app ready_world) < 2 ^ 32"
    by (simp add: ready_world_facts)
  from runForwardPass_precomputes_outputs
         [OF ready_world_facts(1) ready_world_facts(2) ready_world_facts(3) ready_world_facts(5) lat]
  show ?thesis
    using ready_world_facts by (auto simp: length_preset_layers)
qed

text \<open>
  Claim C1 as stated, for every non-empty input, fails in two states. While
  \<open>isAnimating\<close> is true \<open>runForwardPass\<close> returns at its guard: the world is
  what it was, and nothing is appended. And with \<open>latentDim = -1\<close> the VAE's latent layer throws at
  \<open>Array(latentDim)\<close>: three outputs of seven are in \<open>layerOutputs\<close> when the
  \<open>catch\<close> branch ends the pass.
\<close>

theorem runForwardPass_counterexample:
  "\<not> no_input (app busy_world)
   \<and> getCurrentArch (app busy_world)
        = Some \<lparr>arch_name = ''Variational Autoencoder'', layers = VAE_layers\<rparr>
   \<and> length VAE_layers = 7
   \<and> isAnimating (app busy_world)
   \<and> runForwardPass busy_world = busy_world
   \<and> layerOutputs (app busy_world) = []
   \<and> \<not> no_input (app bad_latent_world)
   \<and> \<not> isAnimating (app bad_latent_world)
   \<and> getCurrentArch (app bad_latent_world)
        = Some \<lparr>arch_name = ''Variational Autoencoder'', layers = VAE_layers\<rparr>
   \<and> length (layerOutputs (app (runForwardPass bad_latent_world))) = 3"
proof -
  have busy: "runForwardPass busy_world = busy_world"
    using busy_world_facts by (simp add: runForwardPass_def)
  obtain w1 where w1:
    "layers_forEach VAE_layers 0 (NoteArray one_note_input)
       (runForwardPass_begin bad_latent_world) = Inl (RangeError, w1)"
    "length (layerOutputs (app w1)) = 3"
    using bad_latent_forEach by blast
  have ab: "getCurrentArch (app (runForwardPass_begin bad_latent_world))
              = Some \<lparr>arch_name = ''Variational Autoencoder'', layers = VAE_layers\<rparr>"
    using bad_latent_world_facts(3) by (simp add: runForwardPass_begin_frame getCurrentArch_def)
  have idb: "input_data (app (runForwardPass_begin bad_latent_world)) = NoteArray one_note_input"
    using bad_latent_world_facts(5) by (simp add: input_data_def runForwardPass_begin_frame)
  have "processAllLayers (runForwardPass_begin bad_latent_world) = Inl (RangeError, w1)"
    using ab idb w1(1) by (simp add: processAllLayers_def andThen_def)
  then have bad: "length (layerOutputs (app (runForwardPass bad_latent_world))) = 3"
    using bad_latent_world_facts w1(2)
    by (simp add: runForwardPass_def Let_def updateExplanation_def)
  from busy bad busy_world_facts bad_latent_world_facts length_preset_layers(1)
  show ?thesis by simp
qed

section \<open>Failure handling\<close>

text \<open>
  Claim C7, amended. The program retries nothing: when the forward pass fails,
  \<open>runForwardPass\<close> schedules no task and calls nothing again. Its failure handling is
  more than a console warning: the \<open>catch\<close> branch of \<open>runForwardPass\<close> logs a
  console error, sets \<open>isAnimating\<close> to false, hides the loading animation and shows
  an error message; the \<open>catch\<close> branch of \<open>generateInput\<close> (reached when the
  architecture is unknown to \<open>updateLayerList\<close>) logs a console error and shows an
  error message; \<open>AudioPlayer.play\<close> on \<open>null\<close> or an empty list logs a console
  warning.
\<close>

theorem failure_handling_without_retry:
  assumes ni: "\<not> no_input (app w)"
    and idle: "\<not> isAnimating (app w)"
    and fail: "processAllLayers (runForwardPass_begin w) = Inl (e, w')"
    and unknown: "getCurrentArch (app v) = None"
  shows "effects (runForwardPass w) =
           effects w @ [ShowLoadingAnimation, ConsoleError e, HideLoadingAnimation,
                        UpdateExplanation ErrorDuringForwardPass]
       \<and> pending (runForwardPass w) = pending w
       \<and> app (runForwardPass w) = (app w')\<lparr>isAnimating := False\<rparr>
       \<and> effects (app_generateInput ty v) =
           effects v @ [DrawInput (fst (generateInput ty (rnd v))), ConsoleError TypeError,
                        UpdateExplanation ErrorGeneratingInput]
       \<and> pending (app_generateInput ty v) = pending v
       \<and> AudioPlayer_play None u = u\<lparr>effects := effects u @ [ConsoleWarn ''No notes to play'']\<rparr>
       \<and> AudioPlayer_play (Some []) u = u\<lparr>effects := effects u @ [ConsoleWarn ''No notes to play'']\<rparr>"
proof -
  have b: "isAnimating (app (runForwardPass_begin w))"
    by (simp add: runForwardPass_begin_frame)
  from processAllLayers_fails [OF fail b outputs_drawable_begin]
  have w': "effects w' = effects w @ [ShowLoadingAnimation]" "pending w' = pending w"
    by (simp_all add: runForwardPass_begin_frame)
  have run: "runForwardPass w =
      updateExplanation ErrorDuringForwardPass
        (emit HideLoadingAnimation
          ((emit (ConsoleError e) w')\<lparr>app := (app w')\<lparr>isAnimating := False\<rparr>\<rparr>))"
    using ni idle fail by (simp add: runForwardPass_def Let_def)
  have r: "effects (runForwardPass w) =
           effects w @ [ShowLoadingAnimation, ConsoleError e, HideLoadingAnimation,
                        UpdateExplanation ErrorDuringForwardPass]"
    "pending (runForwardPass w) = pending w"
    "app (runForwardPass w) = (app w')\<lparr>isAnimating := False\<rparr>"
    unfolding run using w' by (simp_all add: updateExplanation_def)
  have g: "effects (app_generateInput ty v) =
           effects v @ [DrawInput (fst (generateInput ty (rnd v))), ConsoleError TypeError,
                        UpdateExplanation ErrorGeneratingInput]"
    "pending (app_generateInput ty v) = pending v"
    using unknown
    by (simp_all add: app_generateInput_def Let_def case_prod_unfold
        visualizer_updateLayerList_def updateExplanation_def getCurrentArch_def)
  have p: "AudioPlayer_play None u = u\<lparr>effects := effects u @ [ConsoleWarn ''No notes to play'']\<rparr>"
    "AudioPlayer_play (Some []) u = u\<lparr>effects := effects u @ [ConsoleWarn ''No notes to play'']\<rparr>"
    by (simp_all add: AudioPlayer_play_def emit_def)
  from r g p show ?thesis by blast
qed

theorem failure_handling_without_retry_witness:
  "\<not> no_input (app unknown_arch_world)
   \<and> \<not> isAnimating (app unknown_arch_world)
   \<and> processAllLayers (runForwardPass_begin unknown_arch_world)
        = Inl (TypeError, runForwardPass_begin unknown_arch_world)
   \<and> getCurrentArch (app unknown_arch_world) = None
   \<and> pending (runForwardPass unknown_arch_world) = []
   \<and> \<not> isAnimating (app (runForwardPass unknown_arch_world))
   \<and> pending (app_generateInput ''scale'' unknown_arch_world) = []"
proof -
  have f: "processAllLayers (runForwardPass_begin unknown_arch_world)
             = Inl (TypeError, runForwardPass_begin unknown_arch_world)"
    using unknown_arch_world_facts(3)
    by (simp add: processAllLayers_def runForwardPass_begin_frame getCurrentArch_def)
  from failure_handling_without_retry
         [OF unknown_arch_world_facts(1) unknown_arch_world_facts(2) f unknown_arch_world_facts(3),
          of "''scale''"]
  show ?thesis
    using unknown_arch_world_facts f by simp
qed

text \<open>
  Claim C7 as stated, that a console warning is the only failure handling, fails where the
  forward pass throws (here on an architecture key without a preset): what is recorded is
  a console error, the hiding of the loading animation and an error message.
\<close>

theorem failure_handling_counterexample:
  "effects (runForwardPass unknown_arch_world) =
     [ShowLoadingAnimation, ConsoleError TypeError, HideLoadingAnimation,
      UpdateExplanation ErrorDuringForwardPass]"
  using unknown_arch_world_facts unknown_arch_fails
  by (simp add: runForwardPass_def Let_def updateExplanation_def runForwardPass_begin_frame)

end
